theory Spec2Isabelle
  imports Main "HOL-Library.Word"
begin

unbundle bit_operations_syntax

section \<open>Configuration constants\<close>

text \<open>
  The frozen objects \<open>SECURITY_CONFIG\<close> (utils/security) and \<open>CRYPTO_CONFIG\<close>
  (utils/crypto). Durations and clock readings are milliseconds, modelled as \<open>int\<close>;
  the attempt counter is a \<open>nat\<close>. JavaScript numbers are doubles: the counter is
  exact below \<open>2 ^ 53\<close>, and \<open>15000 * Math.pow(2, k)\<close> is either exact or
  \<open>Infinity\<close>, so that \<open>Math.min\<close> against \<open>300000\<close> agrees with the integer
  computation for every \<open>k\<close>.
\<close>

definition MAX_UNLOCK_ATTEMPTS :: nat where
  "MAX_UNLOCK_ATTEMPTS = 5"

definition LOCKOUT_BASE_MS :: int where
  "LOCKOUT_BASE_MS = 15000"

definition LOCKOUT_MULTIPLIER :: int where
  "LOCKOUT_MULTIPLIER = 2"

definition MAX_LOCKOUT_MS :: int where
  "MAX_LOCKOUT_MS = 300000"

definition ALGORITHM :: string where
  "ALGORITHM = ''AES-GCM''"

definition KEY_LENGTH :: nat where
  "KEY_LENGTH = 256"

definition TAG_LENGTH :: nat where
  "TAG_LENGTH = 128"

definition KDF_ALGORITHM :: string where
  "KDF_ALGORITHM = ''PBKDF2''"

definition HASH_ALGORITHM :: string where
  "HASH_ALGORITHM = ''SHA-256''"

definition ITERATIONS :: nat where
  "ITERATIONS = 600000"

section \<open>Rate limiter\<close>

record RateLimitState =
  attempts :: nat
  lockedUntil :: int
  lastAttempt :: int

text \<open>The state a freshly constructed \<open>RateLimiter\<close> holds.\<close>

definition initialRateLimitState :: RateLimitState where
  "initialRateLimitState = \<lparr>attempts = 0, lockedUntil = 0, lastAttempt = 0\<rparr>"

text \<open>
  Every call of \<open>Date.now()\<close> is a parameter of the function that makes it, in the order
  of the calls: \<open>recordAttempt\<close> reads the clock twice (for \<open>lastAttempt\<close>, and for
  \<open>lockedUntil\<close> when the threshold is reached).
\<close>

definition isLocked :: "int \<Rightarrow> RateLimitState \<Rightarrow> bool" where
  "isLocked now st = (now < lockedUntil st)"

definition getRemainingLockoutMs :: "int \<Rightarrow> RateLimitState \<Rightarrow> int" where
  "getRemainingLockoutMs now st =
     (let remaining = lockedUntil st - now in if remaining > 0 then remaining else 0)"

definition getAttempts :: "RateLimitState \<Rightarrow> nat" where
  "getAttempts st = attempts st"

text \<open>The local \<open>lockoutDuration\<close> of \<open>recordAttempt\<close>, as a function of the
  attempt count already incremented.\<close>

definition lockoutDuration :: "nat \<Rightarrow> int" where
  "lockoutDuration n =
     min (LOCKOUT_BASE_MS * LOCKOUT_MULTIPLIER ^ (n - MAX_UNLOCK_ATTEMPTS)) MAX_LOCKOUT_MS"

definition recordAttempt :: "int \<Rightarrow> int \<Rightarrow> RateLimitState \<Rightarrow> RateLimitState" where
  "recordAttempt now1 now2 st =
     (let st1 = st\<lparr>attempts := attempts st + 1\<rparr>;
          st2 = st1\<lparr>lastAttempt := now1\<rparr>
      in if attempts st2 \<ge> MAX_UNLOCK_ATTEMPTS
         then st2\<lparr>lockedUntil := now2 + lockoutDuration (attempts st2)\<rparr>
         else st2)"

definition reset :: "RateLimitState \<Rightarrow> RateLimitState" where
  "reset st = st\<lparr>attempts := 0, lockedUntil := 0, lastAttempt := 0\<rparr>"

section \<open>Byte buffers and the platform\<close>

type_synonym byte = "8 word"

text \<open>A \<open>Uint8Array\<close> is a list of bytes; a JavaScript string is a \<open>string\<close>
  (the code units below 256, which cover hexadecimal text and the binary strings of
  \<open>atob\<close>).\<close>

type_synonym buffer = "byte list"

datatype exn = Error string | DOMException string

record Pbkdf2Params =
  kdf_name :: string
  kdf_salt :: buffer
  kdf_iterations :: nat
  kdf_hash :: string

datatype DerivedKeyAlgorithm =
  AesDerivedKeyParams string nat
  | HmacImportParams string string nat

record AesGcmParams =
  gcm_name :: string
  gcm_iv :: buffer
  gcm_tagLength :: nat

text \<open>The interfaces \<open>VaultFile\<close>, \<open>VaultManifest\<close> and \<open>DecryptedFile\<close>. Field
  names carry a prefix, since the three share names and a record field is a constant
  of the theory. An optional field is an \<open>option\<close>.\<close>

record VaultFile =
  vf_id :: string
  vf_title :: string
  vf_priority :: "string option"
  vf_tags :: "string list option"
  vf_iv :: string
  vf_data :: string

record VaultManifest =
  vm_salt :: string
  vm_hmac :: "string option"
  vm_generatedAt :: string
  vm_files :: "VaultFile list"

record DecryptedFile =
  df_id :: string
  df_title :: string
  df_priority :: "string option"
  df_tags :: "string list option"
  df_content :: string

text \<open>
  The functions of the Web platform the code calls are parameters of the model, so that
  every theorem holds for whatever they compute. \<open>'k\<close> is the opaque \<open>CryptoKey\<close>.
  A rejected promise or a thrown exception is \<open>Inl\<close>.
\<close>

record 'k platform =
  TextEncoder_encode :: "string \<Rightarrow> buffer"
  TextDecoder_decode :: "buffer \<Rightarrow> string"
  subtle_importKey :: "string \<Rightarrow> buffer \<Rightarrow> string \<Rightarrow> bool \<Rightarrow> string list \<Rightarrow> exn + 'k"
  subtle_deriveKey ::
    "Pbkdf2Params \<Rightarrow> 'k \<Rightarrow> DerivedKeyAlgorithm \<Rightarrow> bool \<Rightarrow> string list \<Rightarrow> exn + 'k"
  subtle_sign :: "string \<Rightarrow> 'k \<Rightarrow> buffer \<Rightarrow> exn + buffer"
  subtle_decrypt :: "AesGcmParams \<Rightarrow> 'k \<Rightarrow> buffer \<Rightarrow> exn + buffer"
  atob :: "string \<Rightarrow> exn + string"
  JSON_stringify :: "VaultFile list \<Rightarrow> string"
  crypto_random :: "nat \<Rightarrow> byte"

text \<open>
  An asynchronous function of the source returns the calls it made, in order, and either
  the exception it threw or its value. The calls recorded are those of
  \<open>crypto.subtle\<close> and of the rate limiter's two mutators, and every pass of the
  comparison loop of \<open>verifyHmac\<close> through its body: \<open>CompareIndex i\<close> is the read of
  \<open>signatureArray[i]\<close> and \<open>expectedHmac[i]\<close>.
\<close>

datatype call =
  ImportKeyCall
  | DeriveKeyCall Pbkdf2Params DerivedKeyAlgorithm
  | SignCall
  | CompareIndex nat
  | DecryptCall
  | RecordAttemptCall
  | ResetCall

type_synonym 'a io = "call list \<times> (exn + 'a)"

definition resolved :: "'a \<Rightarrow> 'a io" where
  "resolved x = ([], Inr x)"

definition attempt :: "exn + 'a \<Rightarrow> 'a io" where
  "attempt r = ([], r)"

definition platform_call :: "call \<Rightarrow> exn + 'a \<Rightarrow> 'a io" where
  "platform_call c r = ([c], r)"

definition andThen :: "'a io \<Rightarrow> ('a \<Rightarrow> 'b io) \<Rightarrow> 'b io" where
  "andThen m f =
     (case m of
        (cs, Inl e) \<Rightarrow> (cs, Inl e)
      | (cs, Inr x) \<Rightarrow> (case f x of (cs', r) \<Rightarrow> (cs @ cs', r)))"

section \<open>utils/crypto\<close>

definition isHexDigit :: "char \<Rightarrow> bool" where
  "isHexDigit c = (c \<in> set ''0123456789abcdefABCDEF'')"

definition hexDigitValue :: "char \<Rightarrow> nat" where
  "hexDigitValue c =
     (let n = (of_char c :: nat)
      in if 48 \<le> n \<and> n \<le> 57 then n - 48
         else if 97 \<le> n \<and> n \<le> 102 then n - 87
         else n - 55)"

text \<open>\<open>parseInt(s, 16)\<close> on a string of hexadecimal digits, the only strings
  \<open>hexToBuffer\<close> passes to it.\<close>

definition parseInt16 :: "string \<Rightarrow> nat" where
  "parseInt16 s = foldl (\<lambda>acc c. acc * 16 + hexDigitValue c) 0 s"

definition substring :: "string \<Rightarrow> nat \<Rightarrow> nat \<Rightarrow> string" where
  "substring s a b = take (b - a) (drop a s)"

definition hexToBuffer :: "string \<Rightarrow> exn + buffer" where
  "hexToBuffer hex =
     (if \<not> list_all isHexDigit hex \<or> length hex mod 2 \<noteq> 0
      then Inl (Error ''Invalid hex string'')
      else Inr (map (\<lambda>i. of_nat (parseInt16 (substring hex (i * 2) (i * 2 + 2))))
                  [0..<length hex div 2]))"

definition base64ToBuffer :: "'k platform \<Rightarrow> string \<Rightarrow> exn + buffer" where
  "base64ToBuffer pf base64 =
     (case atob pf base64 of
        Inl e \<Rightarrow> Inl e
      | Inr binaryString \<Rightarrow>
          Inr (map (\<lambda>i. of_char (binaryString ! i)) [0..<length binaryString]))"

definition importPasswordKey :: "'k platform \<Rightarrow> string \<Rightarrow> 'k io" where
  "importPasswordKey pf passphrase =
     (let keyMaterial = TextEncoder_encode pf passphrase
      in platform_call ImportKeyCall
           (subtle_importKey pf ''raw'' keyMaterial KDF_ALGORITHM False [''deriveKey'']))"

definition deriveKey :: "'k platform \<Rightarrow> string \<Rightarrow> string \<Rightarrow> 'k io" where
  "deriveKey pf passphrase saltHex =
     andThen (importPasswordKey pf passphrase) (\<lambda>passwordKey.
     andThen (attempt (hexToBuffer saltHex)) (\<lambda>salt.
       let params = \<lparr>kdf_name = KDF_ALGORITHM, kdf_salt = salt,
                      kdf_iterations = ITERATIONS, kdf_hash = HASH_ALGORITHM\<rparr>;
           derived = AesDerivedKeyParams ALGORITHM KEY_LENGTH
       in platform_call (DeriveKeyCall params derived)
            (subtle_deriveKey pf params passwordKey derived False
               [''decrypt'', ''encrypt''])))"

text \<open>The loop of \<open>deriveHmacKey\<close> that fills \<open>hmacSalt\<close>, a fresh zeroed array of the
  salt's length, index by index.\<close>

definition hmacSaltOf :: "buffer \<Rightarrow> buffer" where
  "hmacSaltOf salt =
     fold (\<lambda>i hmacSalt. hmacSalt[i := (salt ! i) XOR 0x5c])
       [0..<length salt] (replicate (length salt) 0)"

definition deriveHmacKey :: "'k platform \<Rightarrow> string \<Rightarrow> string \<Rightarrow> 'k io" where
  "deriveHmacKey pf passphrase saltHex =
     andThen (importPasswordKey pf passphrase) (\<lambda>passwordKey.
     andThen (attempt (hexToBuffer saltHex)) (\<lambda>salt.
       let hmacSalt = hmacSaltOf salt;
           params = \<lparr>kdf_name = KDF_ALGORITHM, kdf_salt = hmacSalt,
                      kdf_iterations = ITERATIONS, kdf_hash = HASH_ALGORITHM\<rparr>;
           derived = HmacImportParams ''HMAC'' HASH_ALGORITHM KEY_LENGTH
       in platform_call (DeriveKeyCall params derived)
            (subtle_deriveKey pf params passwordKey derived False
               [''sign'', ''verify''])))"

text \<open>
  The comparison loop of \<open>verifyHmac\<close>, from the index \<open>i\<close> and the accumulator
  \<open>result\<close> it has reached:
  \<open>for (; i < signatureArray.length; i++) result |= signatureArray[i] ^ expectedHmac[i]\<close>,
  on 32-bit integers as JavaScript's bitwise operators compute. It returns the indices
  it has read, in order, and the final accumulator. The loop has no exit but its
  condition.
\<close>

function xorAccumulate :: "buffer \<Rightarrow> buffer \<Rightarrow> nat \<Rightarrow> 32 word \<Rightarrow> call list \<times> 32 word" where
  "xorAccumulate signatureArray expectedHmac i result =
     (if i < length signatureArray
      then (case xorAccumulate signatureArray expectedHmac (i + 1)
                   (result OR (ucast (signatureArray ! i) XOR ucast (expectedHmac ! i)))
            of (cs, r) \<Rightarrow> (CompareIndex i # cs, r))
      else ([], result))"
  by pat_completeness auto
termination
  by (relation "measure (\<lambda>(signatureArray, expectedHmac, i, result).
        length signatureArray - i)") auto

declare xorAccumulate.simps [simp del]

definition verifyHmac :: "'k platform \<Rightarrow> 'k \<Rightarrow> string \<Rightarrow> string \<Rightarrow> bool io" where
  "verifyHmac pf hmacKey data expectedHmacHex =
     (let dataBuffer = TextEncoder_encode pf data
      in andThen (attempt (hexToBuffer expectedHmacHex)) (\<lambda>expectedHmac.
         andThen (platform_call SignCall (subtle_sign pf ''HMAC'' hmacKey dataBuffer))
           (\<lambda>signatureArray.
              if length signatureArray \<noteq> length expectedHmac then resolved False
              else (case xorAccumulate signatureArray expectedHmac 0 0 of
                      (cs, result) \<Rightarrow> (cs, Inr (result = 0))))))"

definition decryptData :: "'k platform \<Rightarrow> 'k \<Rightarrow> string \<Rightarrow> string \<Rightarrow> string io" where
  "decryptData pf key ivHex encryptedBase64 =
     andThen (attempt (hexToBuffer ivHex)) (\<lambda>iv.
     andThen (attempt (base64ToBuffer pf encryptedBase64)) (\<lambda>encryptedData.
     andThen (platform_call DecryptCall
                (subtle_decrypt pf
                   \<lparr>gcm_name = ALGORITHM, gcm_iv = iv, gcm_tagLength = TAG_LENGTH\<rparr>
                   key encryptedData))
       (\<lambda>decryptedBuffer. resolved (TextDecoder_decode pf decryptedBuffer))))"

text \<open>
  \<open>crypto.getRandomValues\<close> overwrites the array in place, and throws a
  \<open>QuotaExceededError\<close>, leaving the array as it was, when the array is longer than
  65536 bytes (Web Cryptography API, the \<open>getRandomValues\<close> method). A function that
  mutates a buffer returns the buffer's final content and the exception thrown, if any.
\<close>

definition getRandomValues :: "'k platform \<Rightarrow> buffer \<Rightarrow> buffer \<times> exn option" where
  "getRandomValues pf buf =
     (if length buf > 65536 then (buf, Some (DOMException ''QuotaExceededError''))
      else (map (crypto_random pf) [0..<length buf], None))"

definition fill :: "byte \<Rightarrow> buffer \<Rightarrow> buffer" where
  "fill v buf = map (\<lambda>_. v) buf"

definition secureWipeBuffer :: "'k platform \<Rightarrow> buffer \<Rightarrow> buffer \<times> exn option" where
  "secureWipeBuffer pf buf =
     (if length buf > 0
      then (case getRandomValues pf buf of
              (b, Some e) \<Rightarrow> (b, Some e)
            | (b, None) \<Rightarrow> (fill 0 b, None))
      else (buf, None))"

section \<open>store/authStore\<close>

datatype AuthError = INVALID_PASSPHRASE | RATE_LIMITED | INTEGRITY_FAILURE | VAULT_EMPTY

record 'k AuthState =
  isUnlocked :: bool
  masterKey :: "'k option"
  decryptedFiles :: "DecryptedFile list"
  error :: "AuthError option"
  errorMessage :: string
  isDecrypting :: bool
  lockoutRemainingMs :: int

definition initialAuthState :: "'k AuthState" where
  "initialAuthState =
     \<lparr>isUnlocked = False, masterKey = None, decryptedFiles = [], error = None,
      errorMessage = [], isDecrypting = False, lockoutRemainingMs = 0\<rparr>"

text \<open>The two module-level singletons: \<open>globalRateLimiter\<close> and the store.\<close>

record 'k world =
  globalRateLimiter :: RateLimitState
  authStore :: "'k AuthState"

text \<open>The readings of \<open>Date.now()\<close> during one \<open>unlock\<close>, one per call site.\<close>

record clock =
  now_isLocked :: int
  now_lockedRemaining :: int
  now_lastAttempt :: int
  now_lockedUntil :: int
  now_remaining :: int

fun getErrorMessage :: "AuthError option \<Rightarrow> string" where
  "getErrorMessage (Some INVALID_PASSPHRASE) = ''Access denied''"
| "getErrorMessage (Some RATE_LIMITED) = ''Too many attempts. Please wait.''"
| "getErrorMessage (Some INTEGRITY_FAILURE) = ''Vault integrity check failed''"
| "getErrorMessage (Some VAULT_EMPTY) = ''No vault data available''"
| "getErrorMessage None = []"

definition verifyVaultIntegrity :: "'k platform \<Rightarrow> VaultManifest \<Rightarrow> string \<Rightarrow> bool io" where
  "verifyVaultIntegrity pf vaultData passphrase =
     (case vm_hmac vaultData of
        None \<Rightarrow> resolved True
      | Some h \<Rightarrow>
          if h = [] then resolved True
          else andThen (deriveHmacKey pf passphrase (vm_salt vaultData)) (\<lambda>hmacKey.
                 let dataToVerify = JSON_stringify pf (vm_files vaultData)
                 in verifyHmac pf hmacKey dataToVerify h))"

text \<open>The \<open>for\<close> loop of \<open>unlock\<close>: \<open>decrypted\<close> is the array built so far.\<close>

fun decryptLoop ::
  "'k platform \<Rightarrow> 'k \<Rightarrow> VaultFile list \<Rightarrow> DecryptedFile list \<Rightarrow> DecryptedFile list io" where
  "decryptLoop pf key [] decrypted = ([], Inr decrypted)"
| "decryptLoop pf key (file # rest) decrypted =
     (case decryptData pf key (vf_iv file) (vf_data file) of
        (cs, Inl e) \<Rightarrow> (cs, Inl e)
      | (cs, Inr content) \<Rightarrow>
          (case decryptLoop pf key rest
                  (decrypted @ [\<lparr>df_id = vf_id file, df_title = vf_title file,
                                  df_priority = vf_priority file, df_tags = vf_tags file,
                                  df_content = content\<rparr>])
           of (cs', r) \<Rightarrow> (cs @ cs', r)))"

text \<open>
  The body of the \<open>try\<close> block. Every exception comes from an awaited call, before the
  path it is on has changed the limiter or the store, so the block returns the world it
  leaves at a \<open>return\<close>, or the exception.
\<close>

definition unlock_try ::
  "'k platform \<Rightarrow> clock \<Rightarrow> VaultManifest \<Rightarrow> string \<Rightarrow> 'k world \<Rightarrow> 'k world io" where
  "unlock_try pf clk vaultData passphrase w =
     (let saltHex = vm_salt vaultData
      in if saltHex = [] \<or> vm_files vaultData = []
         then resolved
                (w\<lparr>authStore := (authStore w)
                     \<lparr>error := Some VAULT_EMPTY,
                      errorMessage := getErrorMessage (Some VAULT_EMPTY),
                      isDecrypting := False\<rparr>\<rparr>)
         else andThen (verifyVaultIntegrity pf vaultData passphrase) (\<lambda>integrityValid.
           if \<not> integrityValid
           then (let rl = recordAttempt (now_lastAttempt clk) (now_lockedUntil clk)
                            (globalRateLimiter w)
                 in ([RecordAttemptCall],
                     Inr (w\<lparr>globalRateLimiter := rl,
                            authStore := (authStore w)
                              \<lparr>error := Some INTEGRITY_FAILURE,
                               errorMessage := getErrorMessage (Some INTEGRITY_FAILURE),
                               isDecrypting := False,
                               lockoutRemainingMs :=
                                 getRemainingLockoutMs (now_remaining clk) rl\<rparr>\<rparr>)))
           else andThen (deriveKey pf passphrase saltHex) (\<lambda>key.
                andThen (decryptLoop pf key (vm_files vaultData) []) (\<lambda>decrypted.
                  ([ResetCall],
                   Inr (w\<lparr>globalRateLimiter := reset (globalRateLimiter w),
                          authStore := (authStore w)
                            \<lparr>isUnlocked := True,
                             masterKey := Some key,
                             decryptedFiles := decrypted,
                             isDecrypting := False,
                             error := None,
                             errorMessage := []\<rparr>\<rparr>))))))"

text \<open>
  One call of \<open>unlock\<close>, from its start to the end of its promise: the calls it made and
  the world it leaves. Each \<open>set\<close> of the store merges the fields it names into the
  state. What other handlers do between two of its awaits is not part of the model.
\<close>

definition unlock ::
  "'k platform \<Rightarrow> clock \<Rightarrow> VaultManifest \<Rightarrow> string \<Rightarrow> 'k world \<Rightarrow> call list \<times> 'k world" where
  "unlock pf clk vaultData passphrase w =
     (if isLocked (now_isLocked clk) (globalRateLimiter w)
      then ([],
            w\<lparr>authStore := (authStore w)
                \<lparr>error := Some RATE_LIMITED,
                 errorMessage := getErrorMessage (Some RATE_LIMITED),
                 lockoutRemainingMs :=
                   getRemainingLockoutMs (now_lockedRemaining clk) (globalRateLimiter w)\<rparr>\<rparr>)
      else
        (let w1 = w\<lparr>authStore := (authStore w)
                      \<lparr>isDecrypting := True, error := None, errorMessage := []\<rparr>\<rparr>
         in case unlock_try pf clk vaultData passphrase w1 of
              (cs, Inr w') \<Rightarrow> (cs, w')
            | (cs, Inl e) \<Rightarrow>
                (let rl = recordAttempt (now_lastAttempt clk) (now_lockedUntil clk)
                            (globalRateLimiter w1)
                 in (cs @ [RecordAttemptCall],
                     w1\<lparr>globalRateLimiter := rl,
                        authStore := (authStore w1)
                          \<lparr>error := Some INVALID_PASSPHRASE,
                           errorMessage := getErrorMessage (Some INVALID_PASSPHRASE),
                           isDecrypting := False,
                           masterKey := None,
                           lockoutRemainingMs :=
                             getRemainingLockoutMs (now_remaining clk) rl\<rparr>\<rparr>))))"

text \<open>
  The loop of \<open>wipe\<close> over the documents held. Each document object is changed in place
  (\<open>content = ''\<close>) after its encoded copy has been wiped; an exception of
  \<open>secureWipeBuffer\<close> leaves the loop with the documents before it already emptied.
\<close>

fun wipeLoop :: "'k platform \<Rightarrow> DecryptedFile list \<Rightarrow> DecryptedFile list \<times> exn option" where
  "wipeLoop pf [] = ([], None)"
| "wipeLoop pf (file # rest) =
     (let contentBytes = TextEncoder_encode pf (df_content file)
      in case secureWipeBuffer pf contentBytes of
           (b, Some e) \<Rightarrow> (file # rest, Some e)
         | (b, None) \<Rightarrow>
             (case wipeLoop pf rest of
                (rest', r) \<Rightarrow> (file\<lparr>df_content := []\<rparr> # rest', r)))"

text \<open>\<open>wipe\<close> returns the world it leaves and the exception that ended it, if any. The
  final call of \<open>window.gc\<close>, where the browser has one, changes nothing of the state.\<close>

definition wipe :: "'k platform \<Rightarrow> 'k world \<Rightarrow> 'k world \<times> exn option" where
  "wipe pf w =
     (let state = authStore w
      in case (if length (decryptedFiles state) > 0 then wipeLoop pf (decryptedFiles state)
               else (decryptedFiles state, None))
         of (fs, Some e) \<Rightarrow> (w\<lparr>authStore := state\<lparr>decryptedFiles := fs\<rparr>\<rparr>, Some e)
          | (fs, None) \<Rightarrow>
              (w\<lparr>authStore := state
                   \<lparr>isUnlocked := False,
                    masterKey := None,
                    decryptedFiles := [],
                    error := None,
                    errorMessage := [],
                    isDecrypting := False\<rparr>\<rparr>, None))"

section \<open>components/UnlockScreen\<close>

record UnlockScreenState =
  ui_passphrase :: string
  ui_displayLockout :: int

text \<open>The form's submit handler, the only caller of \<open>unlock\<close>. The component state
  is the passphrase typed and the lockout displayed; \<open>isDecrypting\<close> is the value the
  component reads from the store.\<close>

definition handleSubmit ::
  "'k platform \<Rightarrow> clock \<Rightarrow> VaultManifest \<Rightarrow> UnlockScreenState \<Rightarrow> 'k world
     \<Rightarrow> call list \<times> UnlockScreenState \<times> 'k world" where
  "handleSubmit pf clk vaultData ui w =
     (if ui_passphrase ui = [] \<or> isDecrypting (authStore w) \<or> ui_displayLockout ui > 0
      then ([], ui, w)
      else (let passphraseValue = ui_passphrase ui;
                ui' = ui\<lparr>ui_passphrase := []\<rparr>
            in case unlock pf clk vaultData passphraseValue w of
                 (cs, w') \<Rightarrow> (cs, ui', w')))"

section \<open>A small platform for concrete runs\<close>

text \<open>
  A toy instance of the platform, used to run the model on concrete inputs: the key is
  the passphrase bytes followed by the salt, a ciphertext decrypts when it starts with
  the key, and the signature of any data is the key.
\<close>

definition demoPlatform :: "buffer platform" where
  "demoPlatform =
     \<lparr>TextEncoder_encode = map of_char,
      TextDecoder_decode = map (\<lambda>b. char_of (unat b)),
      subtle_importKey = (\<lambda>format keyMaterial alg extractable usages. Inr keyMaterial),
      subtle_deriveKey = (\<lambda>params baseKey derived extractable usages.
         Inr (baseKey @ kdf_salt params)),
      subtle_sign = (\<lambda>alg key data. Inr key),
      subtle_decrypt = (\<lambda>params key data.
         if take (length key) data = key then Inr (drop (length key) data)
         else Inl (DOMException ''OperationError'')),
      atob = (\<lambda>s. Inr s),
      JSON_stringify = (\<lambda>fs. concat (map vf_data fs)),
      crypto_random = (\<lambda>i. of_nat i)\<rparr>"

definition demoFile :: VaultFile where
  "demoFile =
     \<lparr>vf_id = ''1'', vf_title = ''Incident Response'', vf_priority = Some ''high'',
      vf_tags = None, vf_iv = ''0a0b'', vf_data = ''pw!hi''\<rparr>"

definition demoVault :: VaultManifest where
  "demoVault =
     \<lparr>vm_salt = ''21'', vm_hmac = None, vm_generatedAt = ''2024'', vm_files = [demoFile]\<rparr>"

definition demoClock :: clock where
  "demoClock =
     \<lparr>now_isLocked = 1000, now_lockedRemaining = 1001, now_lastAttempt = 1002,
      now_lockedUntil = 1003, now_remaining = 1004\<rparr>"

definition demoWorld :: "buffer world" where
  "demoWorld = \<lparr>globalRateLimiter = initialRateLimitState, authStore = initialAuthState\<rparr>"

definition lockedOutWorld :: "buffer world" where
  "lockedOutWorld =
     \<lparr>globalRateLimiter = \<lparr>attempts = 5, lockedUntil = 900, lastAttempt = 100\<rparr>,
      authStore = initialAuthState\<rparr>"

definition badSaltVault :: VaultManifest where
  "badSaltVault = demoVault\<lparr>vm_salt := ''zz''\<rparr>"

definition busyWorld :: "buffer world" where
  "busyWorld = demoWorld\<lparr>authStore := (authStore demoWorld)\<lparr>isDecrypting := True\<rparr>\<rparr>"

definition demoScreen :: UnlockScreenState where
  "demoScreen = \<lparr>ui_passphrase = ''pw'', ui_displayLockout = 0\<rparr>"

definition erroredWorld :: "buffer world" where
  "erroredWorld =
     demoWorld\<lparr>authStore := (authStore demoWorld)
       \<lparr>error := Some INVALID_PASSPHRASE, errorMessage := ''Access denied''\<rparr>\<rparr>"

definition unlockedWorld :: "buffer world" where
  "unlockedWorld =
     demoWorld\<lparr>authStore := (authStore demoWorld)
       \<lparr>isUnlocked := True, masterKey := Some [0x70, 0x77, 0x21],
        decryptedFiles :=
          [\<lparr>df_id = ''1'', df_title = ''Incident Response'', df_priority = Some ''high'',
             df_tags = None, df_content = ''hi''\<rparr>]\<rparr>\<rparr>"

definition bigDocWorld :: "buffer world" where
  "bigDocWorld =
     demoWorld\<lparr>authStore := (authStore demoWorld)
       \<lparr>isUnlocked := True, masterKey := Some [0x70, 0x77, 0x21],
        decryptedFiles :=
          [\<lparr>df_id = ''1'', df_title = ''Incident Response'', df_priority = Some ''high'',
             df_tags = None, df_content = replicate 65537 CHR ''a''\<rparr>]\<rparr>\<rparr>"

section \<open>Unfolding the definitions\<close>

lemmas io_defs = resolved_def attempt_def platform_call_def andThen_def

lemmas hex_defs = hexToBuffer_def isHexDigit_def parseInt16_def substring_def hexDigitValue_def

lemmas cfg_defs = MAX_UNLOCK_ATTEMPTS_def LOCKOUT_BASE_MS_def LOCKOUT_MULTIPLIER_def
  MAX_LOCKOUT_MS_def ALGORITHM_def KEY_LENGTH_def TAG_LENGTH_def KDF_ALGORITHM_def
  HASH_ALGORITHM_def ITERATIONS_def

lemmas demo_defs = demoPlatform_def demoFile_def demoVault_def demoClock_def demoWorld_def
  initialRateLimitState_def initialAuthState_def

section \<open>The rate limiter\<close>

lemma lockoutDuration_le_cap: "lockoutDuration n \<le> 300000"
  by (simp add: lockoutDuration_def MAX_LOCKOUT_MS_def)

lemma lockoutDuration_ge_base: "15000 \<le> lockoutDuration n"
proof -
  have "(1::int) \<le> 2 ^ (n - MAX_UNLOCK_ATTEMPTS)"
    by simp
  then have "(15000::int) \<le> 15000 * 2 ^ (n - MAX_UNLOCK_ATTEMPTS)"
    by simp
  then show ?thesis
    by (simp add: lockoutDuration_def LOCKOUT_BASE_MS_def LOCKOUT_MULTIPLIER_def
        MAX_LOCKOUT_MS_def)
qed

lemma attempts_recordAttempt: "attempts (recordAttempt t1 t2 st) = attempts st + 1"
  by (simp add: recordAttempt_def Let_def)

lemma lockedUntil_recordAttempt:
  "lockedUntil (recordAttempt t1 t2 st) =
     (if 5 \<le> attempts st + 1 then t2 + lockoutDuration (attempts st + 1) else lockedUntil st)"
  by (simp add: recordAttempt_def Let_def MAX_UNLOCK_ATTEMPTS_def)

section \<open>The paths of unlock\<close>

lemma unlock_rate_limited:
  assumes "isLocked (now_isLocked clk) (globalRateLimiter w)"
  shows "unlock pf clk v p w =
     ([], w\<lparr>authStore := (authStore w)
            \<lparr>error := Some RATE_LIMITED,
             errorMessage := ''Too many attempts. Please wait.'',
             lockoutRemainingMs :=
               getRemainingLockoutMs (now_lockedRemaining clk) (globalRateLimiter w)\<rparr>\<rparr>)"
  using assms by (simp add: unlock_def)

lemma unlock_vault_empty:
  assumes "\<not> isLocked (now_isLocked clk) (globalRateLimiter w)"
    and "vm_salt v = [] \<or> vm_files v = []"
  shows "unlock pf clk v p w =
     ([], w\<lparr>authStore := (authStore w)
            \<lparr>isDecrypting := False, error := Some VAULT_EMPTY,
             errorMessage := ''No vault data available''\<rparr>\<rparr>)"
  using assms by (auto simp: unlock_def unlock_try_def resolved_def Let_def)

lemma unlock_integrity_failure:
  assumes "\<not> isLocked (now_isLocked clk) (globalRateLimiter w)"
    and "vm_salt v \<noteq> []" and "vm_files v \<noteq> []"
    and "verifyVaultIntegrity pf v p = (cs, Inr False)"
  shows "unlock pf clk v p w =
     (cs @ [RecordAttemptCall],
      w\<lparr>globalRateLimiter :=
           recordAttempt (now_lastAttempt clk) (now_lockedUntil clk) (globalRateLimiter w),
         authStore := (authStore w)
           \<lparr>isDecrypting := False, error := Some INTEGRITY_FAILURE,
            errorMessage := ''Vault integrity check failed'',
            lockoutRemainingMs :=
              getRemainingLockoutMs (now_remaining clk)
                (recordAttempt (now_lastAttempt clk) (now_lockedUntil clk)
                   (globalRateLimiter w))\<rparr>\<rparr>)"
  using assms by (simp add: unlock_def unlock_try_def andThen_def Let_def)

text \<open>What the \<open>catch\<close> block leaves.\<close>

lemma unlock_caught:
  assumes "\<not> isLocked (now_isLocked clk) (globalRateLimiter w)"
    and "unlock_try pf clk v p
           (w\<lparr>authStore := (authStore w)
               \<lparr>isDecrypting := True, error := None, errorMessage := []\<rparr>\<rparr>) = (cs, Inl e)"
  shows "unlock pf clk v p w =
     (cs @ [RecordAttemptCall],
      w\<lparr>globalRateLimiter :=
           recordAttempt (now_lastAttempt clk) (now_lockedUntil clk) (globalRateLimiter w),
         authStore := (authStore w)
           \<lparr>isDecrypting := False, error := Some INVALID_PASSPHRASE,
            errorMessage := ''Access denied'', masterKey := None,
            lockoutRemainingMs :=
              getRemainingLockoutMs (now_remaining clk)
                (recordAttempt (now_lastAttempt clk) (now_lockedUntil clk)
                   (globalRateLimiter w))\<rparr>\<rparr>)"
  using assms by (simp add: unlock_def Let_def)

lemma unlock_try_integrity_throws:
  assumes "vm_salt v \<noteq> []" and "vm_files v \<noteq> []"
    and "verifyVaultIntegrity pf v p = (cs, Inl e)"
  shows "unlock_try pf clk v p w = (cs, Inl e)"
  using assms by (simp add: unlock_try_def andThen_def)

lemma unlock_try_deriveKey_throws:
  assumes "vm_salt v \<noteq> []" and "vm_files v \<noteq> []"
    and "verifyVaultIntegrity pf v p = (cs, Inr True)"
    and "deriveKey pf p (vm_salt v) = (cs2, Inl e)"
  shows "unlock_try pf clk v p w = (cs @ cs2, Inl e)"
  using assms by (simp add: unlock_try_def andThen_def)

lemma unlock_try_decrypt_throws:
  assumes "vm_salt v \<noteq> []" and "vm_files v \<noteq> []"
    and "verifyVaultIntegrity pf v p = (cs, Inr True)"
    and "deriveKey pf p (vm_salt v) = (cs2, Inr key)"
    and "decryptLoop pf key (vm_files v) [] = (cs3, Inl e)"
  shows "unlock_try pf clk v p w = (cs @ cs2 @ cs3, Inl e)"
  using assms by (simp add: unlock_try_def andThen_def)

lemma unlock_success:
  assumes "\<not> isLocked (now_isLocked clk) (globalRateLimiter w)"
    and "vm_salt v \<noteq> []" and "vm_files v \<noteq> []"
    and "verifyVaultIntegrity pf v p = (cs, Inr True)"
    and "deriveKey pf p (vm_salt v) = (cs2, Inr key)"
    and "decryptLoop pf key (vm_files v) [] = (cs3, Inr decrypted)"
  shows "unlock pf clk v p w =
     (cs @ cs2 @ cs3 @ [ResetCall],
      w\<lparr>globalRateLimiter := reset (globalRateLimiter w),
         authStore := (authStore w)
           \<lparr>isUnlocked := True, masterKey := Some key, decryptedFiles := decrypted,
            isDecrypting := False, error := None, errorMessage := []\<rparr>\<rparr>)"
  using assms by (simp add: unlock_def unlock_try_def andThen_def Let_def)

section \<open>Bytes, loops and calls\<close>

lemma xor_up_zero: "(ucast (a::8 word) XOR ucast (b::8 word) = (0::32 word)) = (a = b)"
proof
  assume h: "(ucast a :: 32 word) XOR ucast b = 0"
  have eq: "(ucast a :: 32 word) = ucast b"
  proof -
    have "(ucast a :: 32 word) = (ucast a XOR ucast b) XOR ucast b"
      by (simp add: xor.assoc)
    then show ?thesis
      using h by simp
  qed
  show "a = b"
  proof (rule bit_word_eqI)
    fix n assume "n < LENGTH(8)"
    moreover from eq
    have "bit (ucast a :: 32 word) n = bit (ucast b :: 32 word) n" by simp
    ultimately show "bit a n = bit b n" by (simp add: bit_ucast_iff)
  qed
next
  assume "a = b" then show "(ucast a :: 32 word) XOR ucast b = 0" by simp
qed

lemma fold_or_zero:
  "(fold (\<lambda>i result. result OR g i) xs (a::32 word) = 0) = (a = 0 \<and> (\<forall>i\<in>set xs. g i = 0))"
  by (induction xs arbitrary: a) (auto simp: or_eq_0_iff)

text \<open>The loop reads every index from \<open>i\<close> to the end, whatever the bytes are, and
  its accumulator is the OR of the XORs at those indices.\<close>

lemma xorAccumulate_run:
  "xorAccumulate s e i r =
     (map CompareIndex [i..<length s],
      fold (\<lambda>j result. result OR (ucast (s ! j) XOR ucast (e ! j))) [i..<length s] r)"
proof (induction s e i r rule: xorAccumulate.induct)
  case (1 s e i r)
  show ?case
  proof (cases "i < length s")
    case True
    then have "[i..<length s] = i # [i + 1..<length s]"
      by (simp add: upt_conv_Cons)
    with True "1.IH" show ?thesis
      by (subst xorAccumulate.simps) simp
  next
    case False
    then show ?thesis
      by (subst xorAccumulate.simps) simp
  qed
qed

lemma xorAccumulate_trace:
  "fst (xorAccumulate s e 0 0) = map CompareIndex [0..<length s]"
  by (simp add: xorAccumulate_run)

lemma xorAccumulate_zero:
  "(snd (xorAccumulate s e 0 0) = 0) = (\<forall>i<length s. s ! i = e ! i)"
  by (auto simp: xorAccumulate_run fold_or_zero xor_up_zero)

lemma xorAccumulate_eq:
  "length s = length e \<Longrightarrow> (snd (xorAccumulate s e 0 0) = 0) = (s = e)"
  by (auto simp: xorAccumulate_zero list_eq_iff_nth_eq)

text \<open>What \<open>verifyHmac\<close> does once the digest is decoded and the signature computed.\<close>

lemma verifyHmac_run:
  assumes "hexToBuffer h = Inr expected"
    and "subtle_sign pf ''HMAC'' k (TextEncoder_encode pf d) = Inr signature"
  shows "verifyHmac pf k d h =
     (if length signature \<noteq> length expected then ([SignCall], Inr False)
      else (SignCall # map CompareIndex [0..<length signature],
            Inr (signature = expected)))"
proof (cases "length signature = length expected")
  case True
  obtain cs r where x: "xorAccumulate signature expected 0 0 = (cs, r)"
    by (cases "xorAccumulate signature expected 0 0")
  from x have cs: "cs = map CompareIndex [0..<length signature]"
    using xorAccumulate_trace [of signature expected] by simp
  from x have r: "(r = 0) = (signature = expected)"
    using xorAccumulate_eq [OF True] by simp
  from assms True x cs r show ?thesis
    by (simp add: verifyHmac_def resolved_def attempt_def platform_call_def andThen_def
        Let_def)
next
  case False
  with assms show ?thesis
    by (simp add: verifyHmac_def resolved_def attempt_def platform_call_def andThen_def
        Let_def)
qed

lemma fold_update_map:
  "n \<le> length xs \<Longrightarrow> length h = length xs \<Longrightarrow>
   fold (\<lambda>i h. h[i := f (xs ! i)]) [0..<n] h = map f (take n xs) @ drop n h"
proof (induction n)
  case 0
  then show ?case by simp
next
  case (Suc n)
  then have "fold (\<lambda>i h. h[i := f (xs ! i)]) [0..<Suc n] h =
      (map f (take n xs) @ drop n h)[n := f (xs ! n)]"
    by simp
  also have "\<dots> = map f (take n xs) @ (drop n h)[0 := f (xs ! n)]"
    using Suc.prems by (simp add: list_update_append)
  also have "\<dots> = map f (take n xs) @ f (xs ! n) # drop (Suc n) h"
    using Suc.prems by (simp add: Cons_nth_drop_Suc [symmetric])
  also have "\<dots> = map f (take (Suc n) xs) @ drop (Suc n) h"
    using Suc.prems by (simp add: take_Suc_conv_app_nth)
  finally show ?case .
qed

lemma hmacSaltOf_map: "hmacSaltOf salt = map (\<lambda>b. b XOR 0x5c) salt"
  using fold_update_map [of "length salt" salt "replicate (length salt) 0" "\<lambda>b. b XOR 0x5c"]
  by (simp add: hmacSaltOf_def)

lemma hexToBuffer_invalid:
  "\<not> list_all isHexDigit hex \<or> length hex mod 2 \<noteq> 0 \<Longrightarrow>
   hexToBuffer hex = Inl (Error ''Invalid hex string'')"
  by (auto simp: hexToBuffer_def)

lemma importPasswordKey_calls: "fst (importPasswordKey pf p) = [ImportKeyCall]"
  by (simp add: importPasswordKey_def platform_call_def)

lemma deriveKey_bad_salt:
  assumes "hexToBuffer s = Inl e"
  shows "\<exists>e'. deriveKey pf p s = ([ImportKeyCall], Inl e')"
  using assms
  by (auto simp: deriveKey_def importPasswordKey_def io_defs split: sum.splits)

lemma deriveHmacKey_bad_salt:
  assumes "hexToBuffer s = Inl e"
  shows "\<exists>e'. deriveHmacKey pf p s = ([ImportKeyCall], Inl e')"
  using assms
  by (auto simp: deriveHmacKey_def importPasswordKey_def io_defs split: sum.splits)

lemma verifyVaultIntegrity_bad_salt:
  assumes "hexToBuffer (vm_salt v) = Inl e"
  shows "verifyVaultIntegrity pf v p = ([], Inr True) \<or>
         (\<exists>e'. verifyVaultIntegrity pf v p = ([ImportKeyCall], Inl e'))"
proof (cases "vm_hmac v")
  case None
  then show ?thesis by (simp add: verifyVaultIntegrity_def resolved_def)
next
  case (Some h)
  show ?thesis
  proof (cases "h = []")
    case True
    with Some show ?thesis by (simp add: verifyVaultIntegrity_def resolved_def)
  next
    case False
    from deriveHmacKey_bad_salt [OF assms]
    obtain e' where "deriveHmacKey pf p (vm_salt v) = ([ImportKeyCall], Inl e')"
      by blast
    with Some False show ?thesis
      by (simp add: verifyVaultIntegrity_def andThen_def)
  qed
qed

lemma unlock_try_bad_salt:
  assumes "vm_salt v \<noteq> []" and "vm_files v \<noteq> []"
    and "hexToBuffer (vm_salt v) = Inl e"
  shows "\<exists>e'. unlock_try pf clk v p w = ([ImportKeyCall], Inl e')"
proof -
  from deriveKey_bad_salt [OF assms(3)]
  obtain e1 where dk: "deriveKey pf p (vm_salt v) = ([ImportKeyCall], Inl e1)"
    by blast
  from verifyVaultIntegrity_bad_salt [OF assms(3)]
  consider "verifyVaultIntegrity pf v p = ([], Inr True)"
    | e2 where "verifyVaultIntegrity pf v p = ([ImportKeyCall], Inl e2)"
    by blast
  then show ?thesis
  proof cases
    case 1
    from unlock_try_deriveKey_throws [OF assms(1,2) 1 dk] show ?thesis by simp
  next
    case 2
    from unlock_try_integrity_throws [OF assms(1,2) 2] show ?thesis by simp
  qed
qed

lemma deriveKey_no_record: "RecordAttemptCall \<notin> set (fst (deriveKey pf p s))"
  by (auto simp: deriveKey_def importPasswordKey_def io_defs Let_def split: sum.splits)

lemma deriveHmacKey_no_record: "RecordAttemptCall \<notin> set (fst (deriveHmacKey pf p s))"
  by (auto simp: deriveHmacKey_def importPasswordKey_def io_defs Let_def split: sum.splits)

lemma verifyHmac_no_record: "RecordAttemptCall \<notin> set (fst (verifyHmac pf k d h))"
proof (cases "hexToBuffer h")
  case (Inl e)
  then show ?thesis
    by (simp add: verifyHmac_def io_defs Let_def)
next
  case hx: (Inr expected)
  show ?thesis
  proof (cases "subtle_sign pf ''HMAC'' k (TextEncoder_encode pf d)")
    case (Inl e)
    with hx show ?thesis
      by (simp add: verifyHmac_def io_defs Let_def)
  next
    case (Inr signature)
    from verifyHmac_run [OF hx Inr] show ?thesis
      by auto
  qed
qed

lemma andThen_calls:
  "set (fst (andThen m f)) \<subseteq> set (fst m) \<union> (\<Union>x. set (fst (f x)))"
proof (cases m)
  case (Pair cs r)
  show ?thesis
  proof (cases r)
    case (Inl e)
    with Pair show ?thesis by (simp add: andThen_def)
  next
    case (Inr x)
    obtain cs' r' where fx: "f x = (cs', r')" by (cases "f x")
    then have "set cs' \<subseteq> (\<Union>x. set (fst (f x)))"
      by (metis UN_upper fst_conv iso_tuple_UNIV_I)
    with Pair Inr fx show ?thesis by (auto simp: andThen_def)
  qed
qed

lemma verifyVaultIntegrity_no_record:
  "RecordAttemptCall \<notin> set (fst (verifyVaultIntegrity pf v p))"
proof (cases "vm_hmac v")
  case None
  then show ?thesis by (simp add: verifyVaultIntegrity_def resolved_def)
next
  case (Some h)
  show ?thesis
  proof (cases "h = []")
    case True
    with Some show ?thesis by (simp add: verifyVaultIntegrity_def resolved_def)
  next
    case False
    have "set (fst (verifyVaultIntegrity pf v p)) \<subseteq>
        set (fst (deriveHmacKey pf p (vm_salt v))) \<union>
        (\<Union>k. set (fst (verifyHmac pf k (JSON_stringify pf (vm_files v)) h)))"
      using Some False andThen_calls [of "deriveHmacKey pf p (vm_salt v)"
          "\<lambda>k. verifyHmac pf k (JSON_stringify pf (vm_files v)) h"]
      by (simp add: verifyVaultIntegrity_def Let_def)
    then show ?thesis
      using deriveHmacKey_no_record verifyHmac_no_record by fastforce
  qed
qed

lemma decryptData_no_record: "RecordAttemptCall \<notin> set (fst (decryptData pf k iv d))"
  by (auto simp: decryptData_def io_defs split: sum.splits)

lemma decryptLoop_no_record: "RecordAttemptCall \<notin> set (fst (decryptLoop pf k fs acc))"
proof (induction fs arbitrary: acc)
  case Nil
  then show ?case by simp
next
  case (Cons f fs)
  obtain cs r where d: "decryptData pf k (vf_iv f) (vf_data f) = (cs, r)"
    by (cases "decryptData pf k (vf_iv f) (vf_data f)")
  have cs: "RecordAttemptCall \<notin> set cs"
    using decryptData_no_record [of pf k "vf_iv f" "vf_data f"] d by simp
  show ?case
  proof (cases r)
    case (Inl e)
    with d cs show ?thesis by simp
  next
    case (Inr content)
    obtain cs2 r2 where l: "decryptLoop pf k fs
        (acc @ [\<lparr>df_id = vf_id f, df_title = vf_title f, df_priority = vf_priority f,
                 df_tags = vf_tags f, df_content = content\<rparr>]) = (cs2, r2)"
      by (cases "decryptLoop pf k fs
        (acc @ [\<lparr>df_id = vf_id f, df_title = vf_title f, df_priority = vf_priority f,
                 df_tags = vf_tags f, df_content = content\<rparr>])")
    from Cons.IH [of "acc @ [\<lparr>df_id = vf_id f, df_title = vf_title f,
        df_priority = vf_priority f, df_tags = vf_tags f, df_content = content\<rparr>]"] l
    have "RecordAttemptCall \<notin> set cs2" by simp
    with d cs Inr l show ?thesis by simp
  qed
qed

text \<open>The loop succeeds exactly when every document decrypts, and then returns the
  documents in the manifest's order.\<close>

lemma decryptLoop_fails_iff:
  "isl (snd (decryptLoop pf k fs acc)) =
     (\<exists>f\<in>set fs. isl (snd (decryptData pf k (vf_iv f) (vf_data f))))"
proof (induction fs arbitrary: acc)
  case Nil
  then show ?case by simp
next
  case (Cons f fs)
  obtain cs r where d: "decryptData pf k (vf_iv f) (vf_data f) = (cs, r)"
    by (cases "decryptData pf k (vf_iv f) (vf_data f)")
  show ?case
  proof (cases r)
    case (Inl e)
    with d show ?thesis by simp
  next
    case (Inr content)
    obtain cs2 r2 where l: "decryptLoop pf k fs
        (acc @ [\<lparr>df_id = vf_id f, df_title = vf_title f, df_priority = vf_priority f,
                 df_tags = vf_tags f, df_content = content\<rparr>]) = (cs2, r2)"
      by (cases "decryptLoop pf k fs
        (acc @ [\<lparr>df_id = vf_id f, df_title = vf_title f, df_priority = vf_priority f,
                 df_tags = vf_tags f, df_content = content\<rparr>])")
    from Cons.IH [of "acc @ [\<lparr>df_id = vf_id f, df_title = vf_title f,
        df_priority = vf_priority f, df_tags = vf_tags f, df_content = content\<rparr>]"] l
    have "isl r2 = (\<exists>f\<in>set fs. isl (snd (decryptData pf k (vf_iv f) (vf_data f))))"
      by simp
    with d Inr l show ?thesis by simp
  qed
qed

lemma decryptLoop_result:
  "decryptLoop pf k fs acc = (cs, Inr ds) \<Longrightarrow>
   ds = acc @ map (\<lambda>f. \<lparr>df_id = vf_id f, df_title = vf_title f,
                         df_priority = vf_priority f, df_tags = vf_tags f,
                         df_content =
                           projr (snd (decryptData pf k (vf_iv f) (vf_data f)))\<rparr>) fs"
proof (induction fs arbitrary: acc cs)
  case Nil
  then show ?case by simp
next
  case (Cons f fs)
  obtain cs1 r where d: "decryptData pf k (vf_iv f) (vf_data f) = (cs1, r)"
    by (cases "decryptData pf k (vf_iv f) (vf_data f)")
  show ?case
  proof (cases r)
    case (Inl e)
    with d Cons.prems show ?thesis by simp
  next
    case (Inr content)
    obtain cs2 r2 where l: "decryptLoop pf k fs
        (acc @ [\<lparr>df_id = vf_id f, df_title = vf_title f, df_priority = vf_priority f,
                 df_tags = vf_tags f, df_content = content\<rparr>]) = (cs2, r2)"
      by (cases "decryptLoop pf k fs
        (acc @ [\<lparr>df_id = vf_id f, df_title = vf_title f, df_priority = vf_priority f,
                 df_tags = vf_tags f, df_content = content\<rparr>])")
    with d Inr Cons.prems have r2: "r2 = Inr ds" by simp
    from Cons.IH [OF l [unfolded r2]] d Inr show ?thesis by simp
  qed
qed

lemma unlock_try_cases:
  assumes ne: "vm_salt v \<noteq> []" "vm_files v \<noteq> []"
  obtains (integrity) cs where "verifyVaultIntegrity pf v p = (cs, Inr False)"
  | (thrown) cs e where "unlock_try pf clk v p w = (cs, Inl e)"
  | (success) cs cs2 cs3 key ds where "verifyVaultIntegrity pf v p = (cs, Inr True)"
      "deriveKey pf p (vm_salt v) = (cs2, Inr key)"
      "decryptLoop pf key (vm_files v) [] = (cs3, Inr ds)"
proof -
  obtain cs r where vi: "verifyVaultIntegrity pf v p = (cs, r)"
    by (cases "verifyVaultIntegrity pf v p")
  show thesis
  proof (cases r)
    case (Inl e)
    with vi have "verifyVaultIntegrity pf v p = (cs, Inl e)" by simp
    from unlock_try_integrity_throws [OF ne this] show thesis by (rule thrown)
  next
    case (Inr b)
    show thesis
    proof (cases b)
      case False
      with vi Inr have "verifyVaultIntegrity pf v p = (cs, Inr False)" by simp
      then show thesis by (rule integrity)
    next
      case True
      with vi Inr have vi': "verifyVaultIntegrity pf v p = (cs, Inr True)" by simp
      obtain cs2 r2 where dk: "deriveKey pf p (vm_salt v) = (cs2, r2)"
        by (cases "deriveKey pf p (vm_salt v)")
      show thesis
      proof (cases r2)
        case (Inl e)
        with dk have "deriveKey pf p (vm_salt v) = (cs2, Inl e)" by simp
        from unlock_try_deriveKey_throws [OF ne vi' this] show thesis by (rule thrown)
      next
        case (Inr key)
        with dk have dk': "deriveKey pf p (vm_salt v) = (cs2, Inr key)" by simp
        obtain cs3 r3 where dl: "decryptLoop pf key (vm_files v) [] = (cs3, r3)"
          by (cases "decryptLoop pf key (vm_files v) []")
        show thesis
        proof (cases r3)
          case (Inl e)
          with dl have "decryptLoop pf key (vm_files v) [] = (cs3, Inl e)" by simp
          from unlock_try_decrypt_throws [OF ne vi' dk' this] show thesis by (rule thrown)
        next
          case (Inr ds)
          with dl have "decryptLoop pf key (vm_files v) [] = (cs3, Inr ds)" by simp
          from vi' dk' this show thesis by (rule success)
        qed
      qed
    qed
  qed
qed

text \<open>The five ways an \<open>unlock\<close> ends, by what it leaves in the limiter and the error.\<close>

lemma unlock_outcomes:
  obtains (rate_limited) "isLocked (now_isLocked clk) (globalRateLimiter w)"
      "globalRateLimiter (snd (unlock pf clk v p w)) = globalRateLimiter w"
      "error (authStore (snd (unlock pf clk v p w))) = Some RATE_LIMITED"
  | (vault_empty) "\<not> isLocked (now_isLocked clk) (globalRateLimiter w)"
      "globalRateLimiter (snd (unlock pf clk v p w)) = globalRateLimiter w"
      "error (authStore (snd (unlock pf clk v p w))) = Some VAULT_EMPTY"
  | (integrity_failure) "\<not> isLocked (now_isLocked clk) (globalRateLimiter w)"
      "globalRateLimiter (snd (unlock pf clk v p w)) =
         recordAttempt (now_lastAttempt clk) (now_lockedUntil clk) (globalRateLimiter w)"
      "error (authStore (snd (unlock pf clk v p w))) = Some INTEGRITY_FAILURE"
  | (invalid_passphrase) "\<not> isLocked (now_isLocked clk) (globalRateLimiter w)"
      "globalRateLimiter (snd (unlock pf clk v p w)) =
         recordAttempt (now_lastAttempt clk) (now_lockedUntil clk) (globalRateLimiter w)"
      "error (authStore (snd (unlock pf clk v p w))) = Some INVALID_PASSPHRASE"
  | (unlocked) "\<not> isLocked (now_isLocked clk) (globalRateLimiter w)"
      "globalRateLimiter (snd (unlock pf clk v p w)) = reset (globalRateLimiter w)"
      "error (authStore (snd (unlock pf clk v p w))) = None"
      "isUnlocked (authStore (snd (unlock pf clk v p w)))"
proof (cases "isLocked (now_isLocked clk) (globalRateLimiter w)")
  case True
  show thesis
    by (rule rate_limited) (simp_all add: True unlock_rate_limited [OF True])
next
  case opn: False
  show thesis
  proof (cases "vm_salt v = [] \<or> vm_files v = []")
    case True
    show thesis
      by (rule vault_empty) (simp_all add: opn unlock_vault_empty [OF opn True])
  next
    case False
    then have ne: "vm_salt v \<noteq> []" "vm_files v \<noteq> []" by simp_all
    let ?w1 = "w\<lparr>authStore := (authStore w)
                  \<lparr>isDecrypting := True, error := None, errorMessage := []\<rparr>\<rparr>"
    show thesis
    using ne
    proof (cases rule: unlock_try_cases [where pf = pf and p = p and clk = clk and w = ?w1])
      case (integrity cs)
      show thesis
        by (rule integrity_failure)
          (simp_all add: opn unlock_integrity_failure [OF opn ne integrity])
    next
      case (thrown cs e)
      show thesis
        by (rule invalid_passphrase) (simp_all add: opn unlock_caught [OF opn thrown])
    next
      case (success cs cs2 cs3 key ds)
      show thesis
        by (rule unlocked) (simp_all add: opn unlock_success [OF opn ne success])
    qed
  qed
qed

section \<open>Concrete runs\<close>

lemma demo_open: "\<not> isLocked (now_isLocked demoClock) (globalRateLimiter demoWorld)"
  by (simp add: isLocked_def demo_defs)

lemma demo_integrity_none:
  "verifyVaultIntegrity demoPlatform demoVault p = ([], Inr True)"
  by (simp add: verifyVaultIntegrity_def resolved_def demoVault_def)

lemma demo_hex_salt: "hexToBuffer ''21'' = Inr [0x21]"
  by (simp add: hex_defs upt_rec)

lemma demo_hex_iv: "hexToBuffer ''0a0b'' = Inr [0x0a, 0x0b]"
  by (simp add: hex_defs upt_rec)

lemma demo_deriveKey_pw:
  "deriveKey demoPlatform ''pw'' ''21'' =
     ([ImportKeyCall,
       DeriveKeyCall \<lparr>kdf_name = ''PBKDF2'', kdf_salt = [0x21], kdf_iterations = 600000,
                       kdf_hash = ''SHA-256''\<rparr> (AesDerivedKeyParams ''AES-GCM'' 256)],
      Inr [0x70, 0x77, 0x21])"
  by (simp add: deriveKey_def importPasswordKey_def io_defs demo_hex_salt cfg_defs
      demoPlatform_def)

lemma demo_deriveKey_px:
  "deriveKey demoPlatform ''px'' ''21'' =
     ([ImportKeyCall,
       DeriveKeyCall \<lparr>kdf_name = ''PBKDF2'', kdf_salt = [0x21], kdf_iterations = 600000,
                       kdf_hash = ''SHA-256''\<rparr> (AesDerivedKeyParams ''AES-GCM'' 256)],
      Inr [0x70, 0x78, 0x21])"
  by (simp add: deriveKey_def importPasswordKey_def io_defs demo_hex_salt cfg_defs
      demoPlatform_def)

lemma demo_chars: "char_of (104::nat) = CHR ''h''" "char_of (105::nat) = CHR ''i''"
  by code_simp+

lemma demo_decrypt_pw:
  "decryptData demoPlatform [0x70, 0x77, 0x21] ''0a0b'' ''pw!hi'' = ([DecryptCall], Inr ''hi'')"
  by (simp add: decryptData_def base64ToBuffer_def io_defs demo_hex_iv demoPlatform_def
      upt_rec demo_chars)

lemma demo_decrypt_px:
  "decryptData demoPlatform [0x70, 0x78, 0x21] ''0a0b'' ''pw!hi'' =
     ([DecryptCall], Inl (DOMException ''OperationError''))"
  by (simp add: decryptData_def base64ToBuffer_def io_defs demo_hex_iv demoPlatform_def
      upt_rec)

lemma demo_decryptLoop_pw:
  "decryptLoop demoPlatform [0x70, 0x77, 0x21] [demoFile] [] =
     ([DecryptCall],
      Inr [\<lparr>df_id = ''1'', df_title = ''Incident Response'', df_priority = Some ''high'',
            df_tags = None, df_content = ''hi''\<rparr>])"
  using demo_decrypt_pw by (simp add: demoFile_def)

lemma demo_decryptLoop_px:
  "decryptLoop demoPlatform [0x70, 0x78, 0x21] [demoFile] [] =
     ([DecryptCall], Inl (DOMException ''OperationError''))"
  using demo_decrypt_px by (simp add: demoFile_def)

lemma demo_nonempty: "vm_salt demoVault \<noteq> []" "vm_files demoVault \<noteq> []"
  by (simp_all add: demoVault_def)

lemma demo_run_pw:
  assumes "\<not> isLocked 1000 (globalRateLimiter w)"
  shows "unlock demoPlatform demoClock demoVault ''pw'' w =
     ([ImportKeyCall,
       DeriveKeyCall \<lparr>kdf_name = ''PBKDF2'', kdf_salt = [0x21], kdf_iterations = 600000,
                       kdf_hash = ''SHA-256''\<rparr> (AesDerivedKeyParams ''AES-GCM'' 256),
       DecryptCall, ResetCall],
      w\<lparr>globalRateLimiter := reset (globalRateLimiter w),
         authStore := (authStore w)
           \<lparr>isUnlocked := True, masterKey := Some [0x70, 0x77, 0x21],
            decryptedFiles :=
              [\<lparr>df_id = ''1'', df_title = ''Incident Response'', df_priority = Some ''high'',
                 df_tags = None, df_content = ''hi''\<rparr>],
            isDecrypting := False, error := None, errorMessage := []\<rparr>\<rparr>)"
proof -
  have opn: "\<not> isLocked (now_isLocked demoClock) (globalRateLimiter w)"
    using assms by (simp add: demoClock_def)
  have dk: "deriveKey demoPlatform ''pw'' (vm_salt demoVault) =
     ([ImportKeyCall,
       DeriveKeyCall \<lparr>kdf_name = ''PBKDF2'', kdf_salt = [0x21], kdf_iterations = 600000,
                       kdf_hash = ''SHA-256''\<rparr> (AesDerivedKeyParams ''AES-GCM'' 256)],
      Inr [0x70, 0x77, 0x21])"
    using demo_deriveKey_pw by (simp add: demoVault_def)
  have dl: "decryptLoop demoPlatform [0x70, 0x77, 0x21] (vm_files demoVault) [] =
     ([DecryptCall],
      Inr [\<lparr>df_id = ''1'', df_title = ''Incident Response'', df_priority = Some ''high'',
            df_tags = None, df_content = ''hi''\<rparr>])"
    using demo_decryptLoop_pw by (simp add: demoVault_def)
  from unlock_success [OF opn demo_nonempty demo_integrity_none dk dl]
  show ?thesis by simp
qed

lemma demo_run_px:
  assumes "\<not> isLocked 1000 (globalRateLimiter w)"
  shows "unlock demoPlatform demoClock demoVault ''px'' w =
     ([ImportKeyCall,
       DeriveKeyCall \<lparr>kdf_name = ''PBKDF2'', kdf_salt = [0x21], kdf_iterations = 600000,
                       kdf_hash = ''SHA-256''\<rparr> (AesDerivedKeyParams ''AES-GCM'' 256),
       DecryptCall, RecordAttemptCall],
      w\<lparr>globalRateLimiter := recordAttempt 1002 1003 (globalRateLimiter w),
         authStore := (authStore w)
           \<lparr>isDecrypting := False, error := Some INVALID_PASSPHRASE,
            errorMessage := ''Access denied'', masterKey := None,
            lockoutRemainingMs :=
              getRemainingLockoutMs 1004
                (recordAttempt 1002 1003 (globalRateLimiter w))\<rparr>\<rparr>)"
proof -
  have opn: "\<not> isLocked (now_isLocked demoClock) (globalRateLimiter w)"
    using assms by (simp add: demoClock_def)
  have dk: "deriveKey demoPlatform ''px'' (vm_salt demoVault) =
     ([ImportKeyCall,
       DeriveKeyCall \<lparr>kdf_name = ''PBKDF2'', kdf_salt = [0x21], kdf_iterations = 600000,
                       kdf_hash = ''SHA-256''\<rparr> (AesDerivedKeyParams ''AES-GCM'' 256)],
      Inr [0x70, 0x78, 0x21])"
    using demo_deriveKey_px by (simp add: demoVault_def)
  have dl: "decryptLoop demoPlatform [0x70, 0x78, 0x21] (vm_files demoVault) [] =
     ([DecryptCall], Inl (DOMException ''OperationError''))"
    using demo_decryptLoop_px by (simp add: demoVault_def)
  from unlock_try_decrypt_throws [OF demo_nonempty demo_integrity_none dk dl]
  have "unlock_try demoPlatform demoClock demoVault ''px''
          (w\<lparr>authStore := (authStore w)
              \<lparr>isDecrypting := True, error := None, errorMessage := []\<rparr>\<rparr>) =
        ([ImportKeyCall,
          DeriveKeyCall \<lparr>kdf_name = ''PBKDF2'', kdf_salt = [0x21], kdf_iterations = 600000,
                          kdf_hash = ''SHA-256''\<rparr> (AesDerivedKeyParams ''AES-GCM'' 256),
          DecryptCall], Inl (DOMException ''OperationError''))"
    by simp
  from unlock_caught [OF opn this] show ?thesis
    by (simp add: demoClock_def)
qed

text \<open>A manifest whose digest differs from the signature in its last byte.\<close>

lemma demo_hex_hmac: "hexToBuffer ''70777c'' = Inr [0x70, 0x77, 0x7c]"
  by (simp add: hex_defs upt_rec)

lemma demo_integrity_tampered:
  "verifyVaultIntegrity demoPlatform (demoVault\<lparr>vm_hmac := Some ''70777c''\<rparr>) ''pw'' =
     ([ImportKeyCall,
       DeriveKeyCall \<lparr>kdf_name = ''PBKDF2'', kdf_salt = [0x7d], kdf_iterations = 600000,
                       kdf_hash = ''SHA-256''\<rparr> (HmacImportParams ''HMAC'' ''SHA-256'' 256),
       SignCall, CompareIndex 0, CompareIndex 1, CompareIndex 2], Inr False)"
proof -
  have dk: "deriveHmacKey demoPlatform ''pw'' ''21'' =
     ([ImportKeyCall,
       DeriveKeyCall \<lparr>kdf_name = ''PBKDF2'', kdf_salt = [0x7d], kdf_iterations = 600000,
                       kdf_hash = ''SHA-256''\<rparr> (HmacImportParams ''HMAC'' ''SHA-256'' 256)],
      Inr [0x70, 0x77, 0x7d])"
    by (simp add: deriveHmacKey_def importPasswordKey_def io_defs demo_hex_salt cfg_defs
        demoPlatform_def hmacSaltOf_map Let_def)
  have sg: "\<And>d. subtle_sign demoPlatform ''HMAC'' [0x70, 0x77, 0x7d]
      (TextEncoder_encode demoPlatform d) = Inr [0x70, 0x77, 0x7d]"
    by (simp add: demoPlatform_def)
  have up: "[0..<3] = [0, 1, 2]"
    by (simp add: upt_rec)
  have vh: "\<And>d. verifyHmac demoPlatform [0x70, 0x77, 0x7d] d ''70777c'' =
      ([SignCall, CompareIndex 0, CompareIndex 1, CompareIndex 2], Inr False)"
    by (simp add: verifyHmac_run [OF demo_hex_hmac sg] up)
  show ?thesis
    by (simp add: verifyVaultIntegrity_def demoVault_def dk vh andThen_def Let_def)
qed

lemma demo_run_tampered:
  assumes "\<not> isLocked 1000 (globalRateLimiter w)"
  shows "unlock demoPlatform demoClock (demoVault\<lparr>vm_hmac := Some ''70777c''\<rparr>) ''pw'' w =
     ([ImportKeyCall,
       DeriveKeyCall \<lparr>kdf_name = ''PBKDF2'', kdf_salt = [0x7d], kdf_iterations = 600000,
                       kdf_hash = ''SHA-256''\<rparr> (HmacImportParams ''HMAC'' ''SHA-256'' 256),
       SignCall, CompareIndex 0, CompareIndex 1, CompareIndex 2, RecordAttemptCall],
      w\<lparr>globalRateLimiter := recordAttempt 1002 1003 (globalRateLimiter w),
         authStore := (authStore w)
           \<lparr>isDecrypting := False, error := Some INTEGRITY_FAILURE,
            errorMessage := ''Vault integrity check failed'',
            lockoutRemainingMs :=
              getRemainingLockoutMs 1004
                (recordAttempt 1002 1003 (globalRateLimiter w))\<rparr>\<rparr>)"
proof -
  have opn: "\<not> isLocked (now_isLocked demoClock) (globalRateLimiter w)"
    using assms by (simp add: demoClock_def)
  have ne: "vm_salt (demoVault\<lparr>vm_hmac := Some ''70777c''\<rparr>) \<noteq> []"
    "vm_files (demoVault\<lparr>vm_hmac := Some ''70777c''\<rparr>) \<noteq> []"
    by (simp_all add: demoVault_def)
  from unlock_integrity_failure [OF opn ne demo_integrity_tampered]
  show ?thesis by (simp add: demoClock_def)
qed

lemma demo_run_bad_salt:
  assumes "\<not> isLocked 1000 (globalRateLimiter w)"
  shows "unlock demoPlatform demoClock (demoVault\<lparr>vm_salt := ''zz''\<rparr>) ''pw'' w =
     ([ImportKeyCall, RecordAttemptCall],
      w\<lparr>globalRateLimiter := recordAttempt 1002 1003 (globalRateLimiter w),
         authStore := (authStore w)
           \<lparr>isDecrypting := False, error := Some INVALID_PASSPHRASE,
            errorMessage := ''Access denied'', masterKey := None,
            lockoutRemainingMs :=
              getRemainingLockoutMs 1004
                (recordAttempt 1002 1003 (globalRateLimiter w))\<rparr>\<rparr>)"
proof -
  have opn: "\<not> isLocked (now_isLocked demoClock) (globalRateLimiter w)"
    using assms by (simp add: demoClock_def)
  have ne: "vm_salt (demoVault\<lparr>vm_salt := ''zz''\<rparr>) \<noteq> []"
    "vm_files (demoVault\<lparr>vm_salt := ''zz''\<rparr>) \<noteq> []"
    by (simp_all add: demoVault_def)
  have "hexToBuffer (vm_salt (demoVault\<lparr>vm_salt := ''zz''\<rparr>)) =
      Inl (Error ''Invalid hex string'')"
    by (simp add: hexToBuffer_def isHexDigit_def)
  from unlock_try_bad_salt [OF ne this]
  obtain e' where "unlock_try demoPlatform demoClock (demoVault\<lparr>vm_salt := ''zz''\<rparr>) ''pw''
      (w\<lparr>authStore := (authStore w)
          \<lparr>isDecrypting := True, error := None, errorMessage := []\<rparr>\<rparr>) =
      ([ImportKeyCall], Inl e')"
    by blast
  from unlock_caught [OF opn this] show ?thesis
    by (simp add: demoClock_def)
qed

lemma lockedOut_open: "\<not> isLocked 1000 (globalRateLimiter lockedOutWorld)"
  by (simp add: isLocked_def lockedOutWorld_def)

section \<open>Wiping\<close>

lemma demo_open': "\<not> isLocked 1000 (globalRateLimiter demoWorld)"
  using demo_open by (simp add: demoClock_def)

lemma secureWipeBuffer_zeroes:
  "length buf \<le> 65536 \<Longrightarrow> secureWipeBuffer pf buf = (replicate (length buf) 0, None)"
  by (auto simp: secureWipeBuffer_def getRandomValues_def fill_def map_replicate_const)

lemma secureWipeBuffer_quota:
  "65536 < length buf \<Longrightarrow>
   secureWipeBuffer pf buf = (buf, Some (DOMException ''QuotaExceededError''))"
  by (auto simp: secureWipeBuffer_def getRandomValues_def)

lemma wipeLoop_small:
  "\<forall>f\<in>set fs. length (TextEncoder_encode pf (df_content f)) \<le> 65536 \<Longrightarrow>
   wipeLoop pf fs = (map (\<lambda>f. f\<lparr>df_content := []\<rparr>) fs, None)"
  by (induction fs) (simp_all add: secureWipeBuffer_zeroes Let_def)

lemma wipe_small:
  assumes "\<forall>f\<in>set (decryptedFiles (authStore w)).
      length (TextEncoder_encode pf (df_content f)) \<le> 65536"
  shows "wipe pf w =
     (w\<lparr>authStore := (authStore w)
          \<lparr>isUnlocked := False, masterKey := None, decryptedFiles := [], error := None,
           errorMessage := [], isDecrypting := False\<rparr>\<rparr>, None)"
  using wipeLoop_small [OF assms] by (simp add: wipe_def Let_def)

lemma wipe_limiter: "globalRateLimiter (fst (wipe pf w)) = globalRateLimiter w"
  by (simp add: wipe_def Let_def split: prod.splits option.splits)

lemma wipe_ignores_limiter:
  "wipe pf (w\<lparr>globalRateLimiter := rl\<rparr>) =
     ((fst (wipe pf w))\<lparr>globalRateLimiter := rl\<rparr>, snd (wipe pf w))"
  by (simp add: wipe_def Let_def split: prod.splits option.splits)

section \<open>The lockout schedule\<close>

text \<open>
  Claim C5. \<open>recordAttempt\<close> leaves the attempt count \<open>n\<close> one above the previous
  count. For \<open>n \<ge> 5\<close> it sets \<open>lockedUntil\<close> to the clock reading plus
  \<open>min (15000 * 2 ^ (n - 5)) 300000\<close> milliseconds, so the limiter is locked at once;
  after the fifth failure it is locked exactly until 15 seconds have passed. For
  \<open>n < 5\<close> no lockout is set. Failures 5, 6, 7, ... give 15 s, 30 s, 60 s, 120 s,
  240 s, then 300 s for ever.
\<close>

theorem recordAttempt_lockout:
  assumes "attempts (recordAttempt now1 now2 st) = n"
  shows "n = attempts st + 1 \<and>
    (5 \<le> n \<longrightarrow>
       lockedUntil (recordAttempt now1 now2 st) = now2 + min (15000 * 2 ^ (n - 5)) 300000 \<and>
       isLocked now2 (recordAttempt now1 now2 st)) \<and>
    (n = 5 \<longrightarrow> (\<forall>t. isLocked t (recordAttempt now1 now2 st) = (t < now2 + 15000))) \<and>
    (n < 5 \<longrightarrow> lockedUntil (recordAttempt now1 now2 st) = lockedUntil st) \<and>
    map lockoutDuration [5, 6, 7, 8, 9, 10, 11] =
      [15000, 30000, 60000, 120000, 240000, 300000, 300000] \<and>
    lockoutDuration n \<le> 300000"
proof -
  have n: "n = attempts st + 1"
    using assms by (simp add: attempts_recordAttempt)
  have dur: "lockoutDuration n = min (15000 * 2 ^ (n - 5)) 300000"
    by (simp add: lockoutDuration_def cfg_defs)
  have pos: "0 < lockoutDuration n"
    using lockoutDuration_ge_base [of n] by simp
  have a: "5 \<le> n \<longrightarrow>
       lockedUntil (recordAttempt now1 now2 st) = now2 + min (15000 * 2 ^ (n - 5)) 300000 \<and>
       isLocked now2 (recordAttempt now1 now2 st)"
    using n dur pos by (simp add: lockedUntil_recordAttempt isLocked_def)
  have b: "n = 5 \<longrightarrow> (\<forall>t. isLocked t (recordAttempt now1 now2 st) = (t < now2 + 15000))"
    using n by (simp add: lockedUntil_recordAttempt isLocked_def lockoutDuration_def cfg_defs)
  have c: "n < 5 \<longrightarrow> lockedUntil (recordAttempt now1 now2 st) = lockedUntil st"
    using n by (simp add: lockedUntil_recordAttempt)
  have d: "map lockoutDuration [5, 6, 7, 8, 9, 10, 11] =
      [15000, 30000, 60000, 120000, 240000, 300000, 300000]"
    by (simp add: lockoutDuration_def cfg_defs)
  show ?thesis
    using n a b c d lockoutDuration_le_cap [of n] by simp
qed

theorem recordAttempt_lockout_witness:
  "attempts (recordAttempt 1000 1001 \<lparr>attempts = 4, lockedUntil = 0, lastAttempt = 0\<rparr>) = 5 \<and>
   lockedUntil (recordAttempt 1000 1001 \<lparr>attempts = 4, lockedUntil = 0, lastAttempt = 0\<rparr>)
     = 16001 \<and>
   isLocked 1001 (recordAttempt 1000 1001 \<lparr>attempts = 4, lockedUntil = 0, lastAttempt = 0\<rparr>) \<and>
   attempts (recordAttempt 1000 1001 \<lparr>attempts = 1, lockedUntil = 0, lastAttempt = 0\<rparr>) = 2 \<and>
   lockedUntil (recordAttempt 1000 1001 \<lparr>attempts = 1, lockedUntil = 0, lastAttempt = 0\<rparr>) = 0"
proof -
  have h5: "attempts (recordAttempt 1000 1001
      \<lparr>attempts = 4, lockedUntil = 0, lastAttempt = 0\<rparr>) = 5"
    by (simp add: recordAttempt_def Let_def)
  have h2: "attempts (recordAttempt 1000 1001
      \<lparr>attempts = 1, lockedUntil = 0, lastAttempt = 0\<rparr>) = 2"
    by (simp add: recordAttempt_def Let_def)
  have "(5::nat) \<le> 5" and "(2::nat) < 5"
    by simp_all
  with recordAttempt_lockout [OF h5] recordAttempt_lockout [OF h2]
  have "lockedUntil (recordAttempt 1000 1001
          \<lparr>attempts = 4, lockedUntil = 0, lastAttempt = 0\<rparr>) =
        1001 + min (15000 * 2 ^ (5 - 5)) 300000"
    and "isLocked 1001 (recordAttempt 1000 1001
          \<lparr>attempts = 4, lockedUntil = 0, lastAttempt = 0\<rparr>)"
    and "lockedUntil (recordAttempt 1000 1001
          \<lparr>attempts = 1, lockedUntil = 0, lastAttempt = 0\<rparr>) =
        lockedUntil \<lparr>attempts = 1, lockedUntil = 0, lastAttempt = 0\<rparr>"
    by blast+
  with h5 h2 show ?thesis
    by simp
qed

section \<open>Reset of the attempt count\<close>

text \<open>
  Claim C6. An \<open>unlock\<close> that ends without an error is a successful one: the session
  is unlocked, the attempt count is 0 and the limiter is not locked at any clock reading
  from 0 on, whatever the count was before. An \<open>unlock\<close> that ends with an error never
  resets the count: it leaves it as it was or one higher. When the lockout window has
  expired, the next failed attempt counts from the count the limiter still holds, and
  its lockout is the one of that higher count.
\<close>

theorem unlock_resets_only_on_success:
  "(error (authStore (snd (unlock pf clk v p w))) = None \<longrightarrow>
      isUnlocked (authStore (snd (unlock pf clk v p w))) \<and>
      attempts (globalRateLimiter (snd (unlock pf clk v p w))) = 0 \<and>
      lockedUntil (globalRateLimiter (snd (unlock pf clk v p w))) = 0 \<and>
      (\<forall>t\<ge>0. \<not> isLocked t (globalRateLimiter (snd (unlock pf clk v p w))))) \<and>
   (error (authStore (snd (unlock pf clk v p w))) \<noteq> None \<longrightarrow>
      attempts (globalRateLimiter (snd (unlock pf clk v p w))) = attempts (globalRateLimiter w) \<or>
      attempts (globalRateLimiter (snd (unlock pf clk v p w))) =
        attempts (globalRateLimiter w) + 1) \<and>
   (lockedUntil (globalRateLimiter w) \<le> now_isLocked clk \<and>
    (error (authStore (snd (unlock pf clk v p w))) = Some INTEGRITY_FAILURE \<or>
     error (authStore (snd (unlock pf clk v p w))) = Some INVALID_PASSPHRASE) \<longrightarrow>
      attempts (globalRateLimiter (snd (unlock pf clk v p w))) =
        attempts (globalRateLimiter w) + 1 \<and>
      (5 \<le> attempts (globalRateLimiter w) + 1 \<longrightarrow>
         lockedUntil (globalRateLimiter (snd (unlock pf clk v p w))) =
           now_lockedUntil clk + lockoutDuration (attempts (globalRateLimiter w) + 1)))"
proof (cases rule: unlock_outcomes [where clk = clk and w = w and pf = pf and v = v and p = p])
  case rate_limited
  then show ?thesis by (simp add: isLocked_def)
next
  case vault_empty
  then show ?thesis by simp
next
  case integrity_failure
  then show ?thesis by (simp add: attempts_recordAttempt lockedUntil_recordAttempt)
next
  case invalid_passphrase
  then show ?thesis by (simp add: attempts_recordAttempt lockedUntil_recordAttempt)
next
  case unlocked
  then show ?thesis by (simp add: reset_def isLocked_def)
qed

theorem unlock_resets_only_on_success_witness:
  "error (authStore (snd (unlock demoPlatform demoClock demoVault ''pw'' lockedOutWorld))) = None \<and>
   attempts (globalRateLimiter
     (snd (unlock demoPlatform demoClock demoVault ''pw'' lockedOutWorld))) = 0 \<and>
   \<not> isLocked 1005 (globalRateLimiter
     (snd (unlock demoPlatform demoClock demoVault ''pw'' lockedOutWorld))) \<and>
   lockedUntil (globalRateLimiter lockedOutWorld) \<le> now_isLocked demoClock \<and>
   error (authStore (snd (unlock demoPlatform demoClock demoVault ''px'' lockedOutWorld))) =
     Some INVALID_PASSPHRASE \<and>
   attempts (globalRateLimiter
     (snd (unlock demoPlatform demoClock demoVault ''px'' lockedOutWorld))) = 6 \<and>
   lockedUntil (globalRateLimiter
     (snd (unlock demoPlatform demoClock demoVault ''px'' lockedOutWorld))) = 31003"
proof -
  have e1: "error (authStore
      (snd (unlock demoPlatform demoClock demoVault ''pw'' lockedOutWorld))) = None"
    by (simp add: demo_run_pw [OF lockedOut_open])
  have e2: "error (authStore
      (snd (unlock demoPlatform demoClock demoVault ''px'' lockedOutWorld))) =
      Some INVALID_PASSPHRASE"
    by (simp add: demo_run_px [OF lockedOut_open])
  have x: "lockedUntil (globalRateLimiter lockedOutWorld) \<le> now_isLocked demoClock"
    by (simp add: lockedOutWorld_def demoClock_def)
  have a: "attempts (globalRateLimiter lockedOutWorld) = 5"
    and t: "now_lockedUntil demoClock = 1003" and d: "lockoutDuration 6 = 30000"
    by (simp_all add: lockedOutWorld_def demoClock_def lockoutDuration_def cfg_defs)
  have z: "(0::int) \<le> 1005" by simp
  from unlock_resets_only_on_success
    [of demoPlatform demoClock demoVault "''pw''" lockedOutWorld] e1 z
  have s: "attempts (globalRateLimiter
       (snd (unlock demoPlatform demoClock demoVault ''pw'' lockedOutWorld))) = 0"
    "\<not> isLocked 1005 (globalRateLimiter
       (snd (unlock demoPlatform demoClock demoVault ''pw'' lockedOutWorld)))"
    by blast+
  from unlock_resets_only_on_success
    [of demoPlatform demoClock demoVault "''px''" lockedOutWorld] e2 x
  have f: "attempts (globalRateLimiter
       (snd (unlock demoPlatform demoClock demoVault ''px'' lockedOutWorld))) =
       attempts (globalRateLimiter lockedOutWorld) + 1"
    "5 \<le> attempts (globalRateLimiter lockedOutWorld) + 1 \<longrightarrow>
     lockedUntil (globalRateLimiter
       (snd (unlock demoPlatform demoClock demoVault ''px'' lockedOutWorld))) =
       now_lockedUntil demoClock + lockoutDuration (attempts (globalRateLimiter lockedOutWorld) + 1)"
    by blast+
  from e1 e2 x s f a t d show ?thesis by simp
qed

section \<open>All-or-nothing unlock\<close>

text \<open>
  Claim C4. In an \<open>unlock\<close> that reaches the decryption loop (limiter open, manifest
  not empty, integrity check passed, key derived): if the decryption of some document
  fails, exactly one attempt is recorded, the error is \<open>INVALID_PASSPHRASE\<close>, and
  \<open>isUnlocked\<close> and \<open>decryptedFiles\<close> are what they were, so a locked and empty
  session stays locked and empty; if every document decrypts, the session is unlocked
  and holds the documents in the manifest's order. A session becomes unlocked only when
  every document decrypts.
\<close>

theorem unlock_all_or_nothing:
  assumes opn: "\<not> isLocked (now_isLocked clk) (globalRateLimiter w)"
    and ne: "vm_salt v \<noteq> []" "vm_files v \<noteq> []"
    and iv: "snd (verifyVaultIntegrity pf v p) = Inr True"
    and dk: "snd (deriveKey pf p (vm_salt v)) = Inr key"
  shows "((\<exists>f\<in>set (vm_files v). isl (snd (decryptData pf key (vf_iv f) (vf_data f)))) \<longrightarrow>
      globalRateLimiter (snd (unlock pf clk v p w)) =
        recordAttempt (now_lastAttempt clk) (now_lockedUntil clk) (globalRateLimiter w) \<and>
      attempts (globalRateLimiter (snd (unlock pf clk v p w))) =
        attempts (globalRateLimiter w) + 1 \<and>
      count_list (fst (unlock pf clk v p w)) RecordAttemptCall = 1 \<and>
      error (authStore (snd (unlock pf clk v p w))) = Some INVALID_PASSPHRASE \<and>
      isUnlocked (authStore (snd (unlock pf clk v p w))) = isUnlocked (authStore w) \<and>
      decryptedFiles (authStore (snd (unlock pf clk v p w))) = decryptedFiles (authStore w) \<and>
      (\<not> isUnlocked (authStore w) \<and> decryptedFiles (authStore w) = [] \<longrightarrow>
         \<not> isUnlocked (authStore (snd (unlock pf clk v p w))) \<and>
         decryptedFiles (authStore (snd (unlock pf clk v p w))) = [])) \<and>
    ((\<forall>f\<in>set (vm_files v). \<not> isl (snd (decryptData pf key (vf_iv f) (vf_data f)))) \<longrightarrow>
      isUnlocked (authStore (snd (unlock pf clk v p w))) \<and>
      error (authStore (snd (unlock pf clk v p w))) = None \<and>
      decryptedFiles (authStore (snd (unlock pf clk v p w))) =
        map (\<lambda>f. \<lparr>df_id = vf_id f, df_title = vf_title f, df_priority = vf_priority f,
                    df_tags = vf_tags f,
                    df_content = projr (snd (decryptData pf key (vf_iv f) (vf_data f)))\<rparr>)
          (vm_files v)) \<and>
    (isUnlocked (authStore (snd (unlock pf clk v p w))) \<and> \<not> isUnlocked (authStore w) \<longrightarrow>
      (\<forall>f\<in>set (vm_files v). \<not> isl (snd (decryptData pf key (vf_iv f) (vf_data f)))))"
proof -
  obtain cs where vi: "verifyVaultIntegrity pf v p = (cs, Inr True)"
    using iv by (cases "verifyVaultIntegrity pf v p") simp
  obtain cs2 where dk': "deriveKey pf p (vm_salt v) = (cs2, Inr key)"
    using dk by (cases "deriveKey pf p (vm_salt v)") simp
  obtain cs3 r3 where dl: "decryptLoop pf key (vm_files v) [] = (cs3, r3)"
    by (cases "decryptLoop pf key (vm_files v) []")
  have fails: "isl r3 =
      (\<exists>f\<in>set (vm_files v). isl (snd (decryptData pf key (vf_iv f) (vf_data f))))"
    using decryptLoop_fails_iff [of pf key "vm_files v" "[]"] dl by simp
  have nr: "RecordAttemptCall \<notin> set cs" "RecordAttemptCall \<notin> set cs2"
    "RecordAttemptCall \<notin> set cs3"
    using verifyVaultIntegrity_no_record [of pf v p] deriveKey_no_record [of pf p "vm_salt v"]
      decryptLoop_no_record [of pf key "vm_files v" "[]"] vi dk' dl by simp_all
  show ?thesis
  proof (cases r3)
    case (Inl e)
    let ?w1 = "w\<lparr>authStore := (authStore w)
                  \<lparr>isDecrypting := True, error := None, errorMessage := []\<rparr>\<rparr>"
    from Inl dl have dl': "decryptLoop pf key (vm_files v) [] = (cs3, Inl e)" by simp
    from unlock_try_decrypt_throws [OF ne vi dk' dl']
    have "unlock_try pf clk v p ?w1 = (cs @ cs2 @ cs3, Inl e)" .
    from unlock_caught [OF opn this] fails Inl nr show ?thesis
      by (simp add: attempts_recordAttempt count_list_0_iff)
  next
    case (Inr ds)
    from Inr dl have dl': "decryptLoop pf key (vm_files v) [] = (cs3, Inr ds)" by simp
    from decryptLoop_result [OF dl'] unlock_success [OF opn ne vi dk' dl'] fails Inr
    show ?thesis by simp
  qed
qed

theorem unlock_all_or_nothing_witness:
  "\<not> isLocked (now_isLocked demoClock) (globalRateLimiter demoWorld) \<and>
   snd (verifyVaultIntegrity demoPlatform demoVault ''px'') = Inr True \<and>
   snd (deriveKey demoPlatform ''px'' (vm_salt demoVault)) = Inr [0x70, 0x78, 0x21] \<and>
   (\<exists>f. f \<in> set (vm_files demoVault) \<and>
        isl (snd (decryptData demoPlatform [0x70, 0x78, 0x21] (vf_iv f) (vf_data f)))) \<and>
   attempts (globalRateLimiter (snd (unlock demoPlatform demoClock demoVault ''px'' demoWorld)))
     = 1 \<and>
   error (authStore (snd (unlock demoPlatform demoClock demoVault ''px'' demoWorld))) =
     Some INVALID_PASSPHRASE \<and>
   \<not> isUnlocked (authStore (snd (unlock demoPlatform demoClock demoVault ''px'' demoWorld))) \<and>
   decryptedFiles (authStore (snd (unlock demoPlatform demoClock demoVault ''px'' demoWorld)))
     = [] \<and>
   snd (deriveKey demoPlatform ''pw'' (vm_salt demoVault)) = Inr [0x70, 0x77, 0x21] \<and>
   isUnlocked (authStore (snd (unlock demoPlatform demoClock demoVault ''pw'' demoWorld))) \<and>
   map df_content
     (decryptedFiles (authStore (snd (unlock demoPlatform demoClock demoVault ''pw'' demoWorld))))
     = [''hi'']"
proof -
  have ivx: "snd (verifyVaultIntegrity demoPlatform demoVault ''px'') = Inr True"
    and ivw: "snd (verifyVaultIntegrity demoPlatform demoVault ''pw'') = Inr True"
    by (simp_all add: demo_integrity_none)
  have dkx: "snd (deriveKey demoPlatform ''px'' (vm_salt demoVault)) = Inr [0x70, 0x78, 0x21]"
    and dkw: "snd (deriveKey demoPlatform ''pw'' (vm_salt demoVault)) = Inr [0x70, 0x77, 0x21]"
    by (simp_all add: demo_deriveKey_px demo_deriveKey_pw demoVault_def)
  have fx: "\<exists>f\<in>set (vm_files demoVault).
      isl (snd (decryptData demoPlatform [0x70, 0x78, 0x21] (vf_iv f) (vf_data f)))"
    by (simp add: demoVault_def demoFile_def demo_decrypt_px)
  have fw: "\<forall>f\<in>set (vm_files demoVault).
      \<not> isl (snd (decryptData demoPlatform [0x70, 0x77, 0x21] (vf_iv f) (vf_data f)))"
    by (simp add: demoVault_def demoFile_def demo_decrypt_pw)
  have init: "\<not> isUnlocked (authStore demoWorld) \<and> decryptedFiles (authStore demoWorld) = []"
    "attempts (globalRateLimiter demoWorld) = 0"
    by (simp_all add: demoWorld_def initialAuthState_def initialRateLimitState_def)
  note bad = unlock_all_or_nothing [OF demo_open demo_nonempty ivx dkx, THEN conjunct1,
      THEN mp, OF fx]
  note good = unlock_all_or_nothing [OF demo_open demo_nonempty ivw dkw, THEN conjunct2,
      THEN conjunct1, THEN mp, OF fw]
  have b1: "attempts (globalRateLimiter
        (snd (unlock demoPlatform demoClock demoVault ''px'' demoWorld))) = 1"
    using bad [THEN conjunct2, THEN conjunct1] init(2) by simp
  have b2: "error (authStore (snd (unlock demoPlatform demoClock demoVault ''px'' demoWorld))) =
      Some INVALID_PASSPHRASE"
    using bad by (elim conjE)
  have b3: "\<not> isUnlocked (authStore (snd (unlock demoPlatform demoClock demoVault ''px'' demoWorld)))
      \<and> decryptedFiles (authStore (snd (unlock demoPlatform demoClock demoVault ''px'' demoWorld)))
      = []"
    using bad init(1) by blast
  have g1: "isUnlocked (authStore (snd (unlock demoPlatform demoClock demoVault ''pw'' demoWorld)))"
    using good by (elim conjE)
  have g2: "decryptedFiles (authStore (snd (unlock demoPlatform demoClock demoVault ''pw'' demoWorld))) =
      map (\<lambda>f. \<lparr>df_id = vf_id f, df_title = vf_title f, df_priority = vf_priority f,
                  df_tags = vf_tags f,
                  df_content = projr (snd (decryptData demoPlatform [0x70, 0x77, 0x21]
                    (vf_iv f) (vf_data f)))\<rparr>) (vm_files demoVault)"
    using good by (elim conjE)
  have c: "map df_content (decryptedFiles (authStore
      (snd (unlock demoPlatform demoClock demoVault ''pw'' demoWorld)))) = [''hi'']"
    unfolding g2 by (simp add: demoVault_def demoFile_def demo_decrypt_pw)
  from fx have fx': "\<exists>f. f \<in> set (vm_files demoVault) \<and>
        isl (snd (decryptData demoPlatform [0x70, 0x78, 0x21] (vf_iv f) (vf_data f)))"
    by blast
  from demo_open ivx dkx fx' b1 b2 b3 dkw g1 c show ?thesis by blast
qed

section \<open>Presentation of the two failures\<close>

text \<open>
  The two failures are not presented alike. On the toy platform, a manifest whose digest
  does not match ends with the message \<open>Vault integrity check failed\<close>, and a wrong
  passphrase on a manifest without a digest ends with \<open>Access denied\<close>.
\<close>

theorem unlock_failure_presentation_counterexample:
  "snd (verifyVaultIntegrity demoPlatform (demoVault\<lparr>vm_hmac := Some ''70777c''\<rparr>) ''pw'') =
     Inr False \<and>
   errorMessage (authStore
     (snd (unlock demoPlatform demoClock (demoVault\<lparr>vm_hmac := Some ''70777c''\<rparr>) ''pw''
        demoWorld))) = ''Vault integrity check failed'' \<and>
   snd (verifyVaultIntegrity demoPlatform demoVault ''px'') = Inr True \<and>
   isl (snd (decryptData demoPlatform [0x70, 0x78, 0x21] (vf_iv demoFile) (vf_data demoFile))) \<and>
   errorMessage (authStore (snd (unlock demoPlatform demoClock demoVault ''px'' demoWorld))) =
     ''Access denied'' \<and>
   errorMessage (authStore
     (snd (unlock demoPlatform demoClock (demoVault\<lparr>vm_hmac := Some ''70777c''\<rparr>) ''pw''
        demoWorld))) \<noteq>
   errorMessage (authStore (snd (unlock demoPlatform demoClock demoVault ''px'' demoWorld)))"
proof -
  have g: "\<not> isLocked 1000 (globalRateLimiter demoWorld)"
    using demo_open by (simp add: demoClock_def)
  show ?thesis
    by (simp add: demo_run_tampered [OF g] demo_run_px [OF g] demo_integrity_tampered
        demo_integrity_none demoFile_def demo_decrypt_px)
qed

text \<open>
  Claim C1, as amended. In an \<open>unlock\<close> past the limiter's check on a manifest that is not empty,
  an integrity failure and a decryption failure carry the same penalty: the limiter is
  the old one after exactly one \<open>recordAttempt\<close>, and \<open>lockoutRemainingMs\<close> is
  refreshed from it. They are presented differently: the first as
  \<open>INTEGRITY_FAILURE\<close> with the message \<open>Vault integrity check failed\<close>, the second as
  \<open>INVALID_PASSPHRASE\<close> with the message \<open>Access denied\<close>.
\<close>

theorem unlock_failure_presentation:
  assumes opn: "\<not> isLocked (now_isLocked clk) (globalRateLimiter w)"
    and ne: "vm_salt v \<noteq> []" "vm_files v \<noteq> []"
  shows "(snd (verifyVaultIntegrity pf v p) = Inr False \<longrightarrow>
      error (authStore (snd (unlock pf clk v p w))) = Some INTEGRITY_FAILURE \<and>
      errorMessage (authStore (snd (unlock pf clk v p w))) = ''Vault integrity check failed'' \<and>
      globalRateLimiter (snd (unlock pf clk v p w)) =
        recordAttempt (now_lastAttempt clk) (now_lockedUntil clk) (globalRateLimiter w) \<and>
      count_list (fst (unlock pf clk v p w)) RecordAttemptCall = 1 \<and>
      lockoutRemainingMs (authStore (snd (unlock pf clk v p w))) =
        getRemainingLockoutMs (now_remaining clk) (globalRateLimiter (snd (unlock pf clk v p w)))) \<and>
    (snd (verifyVaultIntegrity pf v p) = Inr True \<and>
     snd (deriveKey pf p (vm_salt v)) = Inr key \<and>
     (\<exists>f\<in>set (vm_files v). isl (snd (decryptData pf key (vf_iv f) (vf_data f)))) \<longrightarrow>
      error (authStore (snd (unlock pf clk v p w))) = Some INVALID_PASSPHRASE \<and>
      errorMessage (authStore (snd (unlock pf clk v p w))) = ''Access denied'' \<and>
      globalRateLimiter (snd (unlock pf clk v p w)) =
        recordAttempt (now_lastAttempt clk) (now_lockedUntil clk) (globalRateLimiter w) \<and>
      count_list (fst (unlock pf clk v p w)) RecordAttemptCall = 1 \<and>
      lockoutRemainingMs (authStore (snd (unlock pf clk v p w))) =
        getRemainingLockoutMs (now_remaining clk) (globalRateLimiter (snd (unlock pf clk v p w))))"
proof (intro conjI impI)
  assume "snd (verifyVaultIntegrity pf v p) = Inr False"
  then obtain cs where vi: "verifyVaultIntegrity pf v p = (cs, Inr False)"
    by (cases "verifyVaultIntegrity pf v p") simp
  have nr: "RecordAttemptCall \<notin> set cs"
    using verifyVaultIntegrity_no_record [of pf v p] vi by simp
  note u = unlock_integrity_failure [OF opn ne vi]
  show "error (authStore (snd (unlock pf clk v p w))) = Some INTEGRITY_FAILURE"
    and "errorMessage (authStore (snd (unlock pf clk v p w))) = ''Vault integrity check failed''"
    and "globalRateLimiter (snd (unlock pf clk v p w)) =
        recordAttempt (now_lastAttempt clk) (now_lockedUntil clk) (globalRateLimiter w)"
    and "count_list (fst (unlock pf clk v p w)) RecordAttemptCall = 1"
    and "lockoutRemainingMs (authStore (snd (unlock pf clk v p w))) =
        getRemainingLockoutMs (now_remaining clk) (globalRateLimiter (snd (unlock pf clk v p w)))"
    using nr by (simp_all add: u count_list_0_iff)
next
  assume h: "snd (verifyVaultIntegrity pf v p) = Inr True \<and>
     snd (deriveKey pf p (vm_salt v)) = Inr key \<and>
     (\<exists>f\<in>set (vm_files v). isl (snd (decryptData pf key (vf_iv f) (vf_data f))))"
  obtain cs where vi: "verifyVaultIntegrity pf v p = (cs, Inr True)"
    using h by (cases "verifyVaultIntegrity pf v p") simp
  obtain cs2 where dk: "deriveKey pf p (vm_salt v) = (cs2, Inr key)"
    using h by (cases "deriveKey pf p (vm_salt v)") simp
  obtain cs3 r3 where dl: "decryptLoop pf key (vm_files v) [] = (cs3, r3)"
    by (cases "decryptLoop pf key (vm_files v) []")
  have "isl r3"
    using decryptLoop_fails_iff [of pf key "vm_files v" "[]"] dl h by simp
  then obtain e where "r3 = Inl e"
    by (cases r3) simp_all
  with dl have dl': "decryptLoop pf key (vm_files v) [] = (cs3, Inl e)"
    by simp
  have nr: "RecordAttemptCall \<notin> set cs" "RecordAttemptCall \<notin> set cs2"
    "RecordAttemptCall \<notin> set cs3"
    using verifyVaultIntegrity_no_record [of pf v p] deriveKey_no_record [of pf p "vm_salt v"]
      decryptLoop_no_record [of pf key "vm_files v" "[]"] vi dk dl by simp_all
  note u = unlock_caught [OF opn unlock_try_decrypt_throws [OF ne vi dk dl']]
  show "error (authStore (snd (unlock pf clk v p w))) = Some INVALID_PASSPHRASE"
    and "errorMessage (authStore (snd (unlock pf clk v p w))) = ''Access denied''"
    and "globalRateLimiter (snd (unlock pf clk v p w)) =
        recordAttempt (now_lastAttempt clk) (now_lockedUntil clk) (globalRateLimiter w)"
    and "count_list (fst (unlock pf clk v p w)) RecordAttemptCall = 1"
    and "lockoutRemainingMs (authStore (snd (unlock pf clk v p w))) =
        getRemainingLockoutMs (now_remaining clk) (globalRateLimiter (snd (unlock pf clk v p w)))"
    using nr by (simp_all add: u count_list_0_iff)
qed

theorem unlock_failure_presentation_witness:
  "\<not> isLocked (now_isLocked demoClock) (globalRateLimiter demoWorld) \<and>
   snd (verifyVaultIntegrity demoPlatform (demoVault\<lparr>vm_hmac := Some ''70777c''\<rparr>) ''pw'') =
     Inr False \<and>
   error (authStore
     (snd (unlock demoPlatform demoClock (demoVault\<lparr>vm_hmac := Some ''70777c''\<rparr>) ''pw''
        demoWorld))) = Some INTEGRITY_FAILURE \<and>
   count_list
     (fst (unlock demoPlatform demoClock (demoVault\<lparr>vm_hmac := Some ''70777c''\<rparr>) ''pw''
        demoWorld)) RecordAttemptCall = 1 \<and>
   snd (verifyVaultIntegrity demoPlatform demoVault ''px'') = Inr True \<and>
   snd (deriveKey demoPlatform ''px'' (vm_salt demoVault)) = Inr [0x70, 0x78, 0x21] \<and>
   (\<exists>f. f \<in> set (vm_files demoVault) \<and>
        isl (snd (decryptData demoPlatform [0x70, 0x78, 0x21] (vf_iv f) (vf_data f)))) \<and>
   error (authStore (snd (unlock demoPlatform demoClock demoVault ''px'' demoWorld))) =
     Some INVALID_PASSPHRASE \<and>
   count_list (fst (unlock demoPlatform demoClock demoVault ''px'' demoWorld))
     RecordAttemptCall = 1"
proof -
  have ne: "vm_salt (demoVault\<lparr>vm_hmac := Some ''70777c''\<rparr>) \<noteq> []"
    "vm_files (demoVault\<lparr>vm_hmac := Some ''70777c''\<rparr>) \<noteq> []"
    by (simp_all add: demoVault_def)
  have vt: "snd (verifyVaultIntegrity demoPlatform (demoVault\<lparr>vm_hmac := Some ''70777c''\<rparr>)
      ''pw'') = Inr False"
    by (simp add: demo_integrity_tampered)
  have px: "snd (verifyVaultIntegrity demoPlatform demoVault ''px'') = Inr True \<and>
     snd (deriveKey demoPlatform ''px'' (vm_salt demoVault)) = Inr [0x70, 0x78, 0x21] \<and>
     (\<exists>f\<in>set (vm_files demoVault).
        isl (snd (decryptData demoPlatform [0x70, 0x78, 0x21] (vf_iv f) (vf_data f))))"
  proof (intro conjI)
    show "snd (verifyVaultIntegrity demoPlatform demoVault ''px'') = Inr True"
      by (simp add: demo_integrity_none)
    show "snd (deriveKey demoPlatform ''px'' (vm_salt demoVault)) = Inr [0x70, 0x78, 0x21]"
      by (simp add: demo_deriveKey_px demoVault_def)
    show "\<exists>f\<in>set (vm_files demoVault).
        isl (snd (decryptData demoPlatform [0x70, 0x78, 0x21] (vf_iv f) (vf_data f)))"
      by (simp add: demoVault_def demoFile_def demo_decrypt_px)
  qed
  note a = unlock_failure_presentation [OF demo_open ne, THEN conjunct1, THEN mp, OF vt]
  note b = unlock_failure_presentation [OF demo_open demo_nonempty, THEN conjunct2, THEN mp,
      OF px]
  have a1: "error (authStore
     (snd (unlock demoPlatform demoClock (demoVault\<lparr>vm_hmac := Some ''70777c''\<rparr>) ''pw''
        demoWorld))) = Some INTEGRITY_FAILURE"
    and a2: "count_list
     (fst (unlock demoPlatform demoClock (demoVault\<lparr>vm_hmac := Some ''70777c''\<rparr>) ''pw''
        demoWorld)) RecordAttemptCall = 1"
    using a by blast+
  have b1: "error (authStore (snd (unlock demoPlatform demoClock demoVault ''px'' demoWorld))) =
     Some INVALID_PASSPHRASE"
    and b2: "count_list (fst (unlock demoPlatform demoClock demoVault ''px'' demoWorld))
     RecordAttemptCall = 1"
    using b by blast+
  from demo_open vt px a1 a2 b1 b2 show ?thesis by blast
qed

section \<open>A salt that is not hexadecimal\<close>

text \<open>
  With the salt \<open>zz\<close> the attempt is counted: the limiter goes from 0 to 1 attempt and
  the error is \<open>INVALID_PASSPHRASE\<close>. The type \<open>AuthError\<close> has no other kind for it.
\<close>

theorem unlock_invalid_salt_counterexample:
  "\<not> list_all isHexDigit (vm_salt badSaltVault) \<and>
   attempts (globalRateLimiter demoWorld) = 0 \<and>
   attempts (globalRateLimiter
     (snd (unlock demoPlatform demoClock badSaltVault ''pw'' demoWorld))) = 1 \<and>
   error (authStore (snd (unlock demoPlatform demoClock badSaltVault ''pw'' demoWorld))) =
     Some INVALID_PASSPHRASE"
  by (simp add: badSaltVault_def demo_run_bad_salt [OF demo_open'] attempts_recordAttempt)
    (simp add: demoVault_def demoWorld_def initialRateLimitState_def isHexDigit_def)

text \<open>
  Claim C2, as amended. For a manifest with at least one document whose salt has a
  character that is not a hexadecimal digit, or an odd length, an \<open>unlock\<close> past the
  opn imports the passphrase and then fails in \<open>hexToBuffer\<close>, before any call of
  \<open>crypto.subtle.deriveKey\<close>: its calls are the import and one \<open>recordAttempt\<close>. The
  failure is reported as \<open>INVALID_PASSPHRASE\<close> with the message \<open>Access denied\<close>, and
  the attempt count goes up by one.
\<close>

theorem unlock_invalid_salt:
  assumes opn: "\<not> isLocked (now_isLocked clk) (globalRateLimiter w)"
    and ne: "vm_files v \<noteq> []"
    and bad: "\<not> list_all isHexDigit (vm_salt v) \<or> length (vm_salt v) mod 2 \<noteq> 0"
  shows "fst (unlock pf clk v p w) = [ImportKeyCall, RecordAttemptCall] \<and>
    error (authStore (snd (unlock pf clk v p w))) = Some INVALID_PASSPHRASE \<and>
    errorMessage (authStore (snd (unlock pf clk v p w))) = ''Access denied'' \<and>
    globalRateLimiter (snd (unlock pf clk v p w)) =
      recordAttempt (now_lastAttempt clk) (now_lockedUntil clk) (globalRateLimiter w) \<and>
    attempts (globalRateLimiter (snd (unlock pf clk v p w))) =
      attempts (globalRateLimiter w) + 1 \<and>
    isUnlocked (authStore (snd (unlock pf clk v p w))) = isUnlocked (authStore w)"
proof -
  from bad have s: "vm_salt v \<noteq> []"
    by auto
  from unlock_try_bad_salt [OF s ne hexToBuffer_invalid [OF bad]]
  obtain e' where "unlock_try pf clk v p
      (w\<lparr>authStore := (authStore w)
          \<lparr>isDecrypting := True, error := None, errorMessage := []\<rparr>\<rparr>) =
      ([ImportKeyCall], Inl e')"
    by blast
  from unlock_caught [OF opn this] show ?thesis
    by (simp add: attempts_recordAttempt)
qed

theorem unlock_invalid_salt_witness:
  "\<not> isLocked (now_isLocked demoClock) (globalRateLimiter demoWorld) \<and>
   vm_files badSaltVault \<noteq> [] \<and>
   \<not> list_all isHexDigit (vm_salt badSaltVault) \<and>
   fst (unlock demoPlatform demoClock badSaltVault ''pw'' demoWorld) =
     [ImportKeyCall, RecordAttemptCall] \<and>
   error (authStore (snd (unlock demoPlatform demoClock badSaltVault ''pw'' demoWorld))) =
     Some INVALID_PASSPHRASE \<and>
   attempts (globalRateLimiter
     (snd (unlock demoPlatform demoClock badSaltVault ''pw'' demoWorld))) = 1"
proof -
  have ne: "vm_files badSaltVault \<noteq> []"
    by (simp add: badSaltVault_def demoVault_def)
  have bad: "\<not> list_all isHexDigit (vm_salt badSaltVault)"
    by (simp add: badSaltVault_def isHexDigit_def)
  have a0: "attempts (globalRateLimiter demoWorld) = 0"
    by (simp add: demoWorld_def initialRateLimitState_def)
  note u = unlock_invalid_salt [OF demo_open ne disjI1, OF bad,
      where pf = demoPlatform and p = "''pw''"]
  have "fst (unlock demoPlatform demoClock badSaltVault ''pw'' demoWorld) =
     [ImportKeyCall, RecordAttemptCall]"
    and "error (authStore (snd (unlock demoPlatform demoClock badSaltVault ''pw'' demoWorld))) =
     Some INVALID_PASSPHRASE"
    and "attempts (globalRateLimiter
     (snd (unlock demoPlatform demoClock badSaltVault ''pw'' demoWorld))) = 1"
    using u a0 by (simp_all add: attempts_recordAttempt)
  with demo_open ne bad show ?thesis by blast
qed

section \<open>A second unlock while one is outstanding\<close>

text \<open>
  \<open>unlock\<close> does not look at \<open>isDecrypting\<close>: called in a state where it is set, it
  derives the key, decrypts and unlocks the session.
\<close>

theorem unlock_while_decrypting_counterexample:
  "isDecrypting (authStore busyWorld) \<and>
   fst (unlock demoPlatform demoClock demoVault ''pw'' busyWorld) =
     [ImportKeyCall,
      DeriveKeyCall \<lparr>kdf_name = ''PBKDF2'', kdf_salt = [0x21], kdf_iterations = 600000,
                      kdf_hash = ''SHA-256''\<rparr> (AesDerivedKeyParams ''AES-GCM'' 256),
      DecryptCall, ResetCall] \<and>
   isUnlocked (authStore (snd (unlock demoPlatform demoClock demoVault ''pw'' busyWorld))) \<and>
   snd (unlock demoPlatform demoClock demoVault ''pw'' busyWorld) \<noteq> busyWorld"
proof -
  have g: "\<not> isLocked 1000 (globalRateLimiter busyWorld)"
    using demo_open' by (simp add: busyWorld_def)
  have u: "\<not> isUnlocked (authStore busyWorld)"
    by (simp add: busyWorld_def demoWorld_def initialAuthState_def)
  have "isUnlocked (authStore (snd (unlock demoPlatform demoClock demoVault ''pw'' busyWorld)))"
    by (simp add: demo_run_pw [OF g])
  with u have "snd (unlock demoPlatform demoClock demoVault ''pw'' busyWorld) \<noteq> busyWorld"
    by auto
  then show ?thesis
    by (simp add: demo_run_pw [OF g]) (simp add: busyWorld_def)
qed

text \<open>
  Claim C3, as amended. The guard is in the form's submit handler: while
  \<open>isDecrypting\<close> is set, \<open>handleSubmit\<close> returns without calling \<open>unlock\<close>, making no
  call and changing neither the form nor the session; otherwise, with a passphrase
  typed and no lockout displayed, it clears the field and calls \<open>unlock\<close>. \<open>unlock\<close>
  itself has no such guard: past the limiter's check it does the same whatever \<open>isDecrypting\<close> is.
\<close>

theorem handleSubmit_guard:
  "(isDecrypting (authStore w) \<longrightarrow> handleSubmit pf clk v ui w = ([], ui, w)) \<and>
   (\<not> isDecrypting (authStore w) \<and> ui_passphrase ui \<noteq> [] \<and> ui_displayLockout ui \<le> 0 \<longrightarrow>
      handleSubmit pf clk v ui w =
        (fst (unlock pf clk v (ui_passphrase ui) w), ui\<lparr>ui_passphrase := []\<rparr>,
         snd (unlock pf clk v (ui_passphrase ui) w))) \<and>
   (\<not> isLocked (now_isLocked clk) (globalRateLimiter w) \<longrightarrow>
      unlock pf clk v p (w\<lparr>authStore := (authStore w)\<lparr>isDecrypting := b\<rparr>\<rparr>) =
        unlock pf clk v p w)"
  by (simp add: handleSubmit_def unlock_def Let_def split: prod.splits)

theorem handleSubmit_guard_witness:
  "isDecrypting (authStore busyWorld) \<and>
   handleSubmit demoPlatform demoClock demoVault demoScreen busyWorld = ([], demoScreen, busyWorld) \<and>
   \<not> isDecrypting (authStore demoWorld) \<and> ui_passphrase demoScreen \<noteq> [] \<and>
   ui_displayLockout demoScreen \<le> 0 \<and>
   fst (snd (handleSubmit demoPlatform demoClock demoVault demoScreen demoWorld)) =
     demoScreen\<lparr>ui_passphrase := []\<rparr> \<and>
   \<not> isLocked (now_isLocked demoClock) (globalRateLimiter demoWorld) \<and>
   unlock demoPlatform demoClock demoVault ''pw'' busyWorld =
     unlock demoPlatform demoClock demoVault ''pw'' demoWorld"
proof -
  have d: "isDecrypting (authStore busyWorld)"
    by (simp add: busyWorld_def)
  have n: "\<not> isDecrypting (authStore demoWorld) \<and> ui_passphrase demoScreen \<noteq> [] \<and>
      ui_displayLockout demoScreen \<le> 0"
    by (simp add: demoWorld_def initialAuthState_def demoScreen_def)
  note t = handleSubmit_guard [of busyWorld demoPlatform demoClock demoVault demoScreen]
  note t' = handleSubmit_guard [of demoWorld demoPlatform demoClock demoVault demoScreen
      "''pw''" True]
  have a: "handleSubmit demoPlatform demoClock demoVault demoScreen busyWorld =
      ([], demoScreen, busyWorld)"
    using t d by blast
  have b: "handleSubmit demoPlatform demoClock demoVault demoScreen demoWorld =
        (fst (unlock demoPlatform demoClock demoVault (ui_passphrase demoScreen) demoWorld),
         demoScreen\<lparr>ui_passphrase := []\<rparr>,
         snd (unlock demoPlatform demoClock demoVault (ui_passphrase demoScreen) demoWorld))"
    using t' n by blast
  have c: "unlock demoPlatform demoClock demoVault ''pw''
      (demoWorld\<lparr>authStore := (authStore demoWorld)\<lparr>isDecrypting := True\<rparr>\<rparr>) =
      unlock demoPlatform demoClock demoVault ''pw'' demoWorld"
    using t' demo_open by blast
  from d a n b c demo_open show ?thesis
    by (simp add: busyWorld_def)
qed

section \<open>Wipe\<close>

text \<open>
  A locked session that shows an error is changed by \<open>wipe\<close>: the error is cleared.
\<close>

theorem wipe_locked_counterexample:
  "\<not> isUnlocked (authStore erroredWorld) \<and>
   decryptedFiles (authStore erroredWorld) = [] \<and>
   snd (wipe demoPlatform erroredWorld) = None \<and>
   error (authStore erroredWorld) = Some INVALID_PASSPHRASE \<and>
   error (authStore (fst (wipe demoPlatform erroredWorld))) = None \<and>
   fst (wipe demoPlatform erroredWorld) \<noteq> erroredWorld"
proof -
  have a: "error (authStore erroredWorld) = Some INVALID_PASSPHRASE"
    and b: "error (authStore (fst (wipe demoPlatform erroredWorld))) = None"
    by (simp_all add: wipe_def erroredWorld_def demoWorld_def initialAuthState_def)
  then have "fst (wipe demoPlatform erroredWorld) \<noteq> erroredWorld"
    by auto
  with a b show ?thesis
    by (simp add: wipe_def erroredWorld_def demoWorld_def initialAuthState_def)
qed

text \<open>
  Claim C7, as amended. \<open>wipe\<close> never reads or changes the limiter. When no document
  held encodes to more than 65536 bytes, \<open>wipe\<close> ends without an exception in the locked
  state: no documents, no key, no error, \<open>isDecrypting\<close> unset, and everything else as
  it was; a second \<open>wipe\<close> changes nothing more. Called on a session that is already
  locked it changes only the error, its message and \<open>isDecrypting\<close>, so it changes
  nothing when those are clear.
\<close>

theorem wipe_locks:
  "globalRateLimiter (fst (wipe pf w)) = globalRateLimiter w \<and>
   wipe pf (w\<lparr>globalRateLimiter := rl\<rparr>) =
     ((fst (wipe pf w))\<lparr>globalRateLimiter := rl\<rparr>, snd (wipe pf w)) \<and>
   ((\<forall>f\<in>set (decryptedFiles (authStore w)).
        length (TextEncoder_encode pf (df_content f)) \<le> 65536) \<longrightarrow>
      wipe pf w =
        (w\<lparr>authStore := (authStore w)
             \<lparr>isUnlocked := False, masterKey := None, decryptedFiles := [], error := None,
              errorMessage := [], isDecrypting := False\<rparr>\<rparr>, None) \<and>
      wipe pf (fst (wipe pf w)) = wipe pf w) \<and>
   (\<not> isUnlocked (authStore w) \<and> masterKey (authStore w) = None \<and>
    decryptedFiles (authStore w) = [] \<and> error (authStore w) = None \<and>
    errorMessage (authStore w) = [] \<and> \<not> isDecrypting (authStore w) \<longrightarrow>
      wipe pf w = (w, None))"
proof (intro conjI impI)
  show "globalRateLimiter (fst (wipe pf w)) = globalRateLimiter w"
    by (rule wipe_limiter)
  show "wipe pf (w\<lparr>globalRateLimiter := rl\<rparr>) =
     ((fst (wipe pf w))\<lparr>globalRateLimiter := rl\<rparr>, snd (wipe pf w))"
    by (rule wipe_ignores_limiter)
next
  assume small: "\<forall>f\<in>set (decryptedFiles (authStore w)).
      length (TextEncoder_encode pf (df_content f)) \<le> 65536"
  show first: "wipe pf w =
        (w\<lparr>authStore := (authStore w)
             \<lparr>isUnlocked := False, masterKey := None, decryptedFiles := [], error := None,
              errorMessage := [], isDecrypting := False\<rparr>\<rparr>, None)"
    by (rule wipe_small [OF small])
  show "wipe pf (fst (wipe pf w)) = wipe pf w"
    unfolding first by (simp add: wipe_def)
next
  assume clean: "\<not> isUnlocked (authStore w) \<and> masterKey (authStore w) = None \<and>
    decryptedFiles (authStore w) = [] \<and> error (authStore w) = None \<and>
    errorMessage (authStore w) = [] \<and> \<not> isDecrypting (authStore w)"
  then have "authStore w\<lparr>isUnlocked := False, masterKey := None, decryptedFiles := [],
      error := None, errorMessage := [], isDecrypting := False\<rparr> = authStore w"
    by (cases "authStore w") simp
  with clean show "wipe pf w = (w, None)"
    by (simp add: wipe_def)
qed

theorem wipe_locks_witness:
  "list_all (\<lambda>f. length (TextEncoder_encode demoPlatform (df_content f)) \<le> 65536)
     (decryptedFiles (authStore unlockedWorld)) \<and>
   isUnlocked (authStore unlockedWorld) \<and>
   wipe demoPlatform unlockedWorld = (demoWorld, None) \<and>
   wipe demoPlatform (fst (wipe demoPlatform unlockedWorld)) = wipe demoPlatform unlockedWorld \<and>
   wipe demoPlatform demoWorld = (demoWorld, None)"
proof -
  have small: "\<forall>f\<in>set (decryptedFiles (authStore unlockedWorld)).
        length (TextEncoder_encode demoPlatform (df_content f)) \<le> 65536"
    by (simp add: unlockedWorld_def demoPlatform_def)
  have clean: "\<not> isUnlocked (authStore demoWorld) \<and> masterKey (authStore demoWorld) = None \<and>
    decryptedFiles (authStore demoWorld) = [] \<and> error (authStore demoWorld) = None \<and>
    errorMessage (authStore demoWorld) = [] \<and> \<not> isDecrypting (authStore demoWorld)"
    by (simp add: demoWorld_def initialAuthState_def)
  note t = wipe_locks [of demoPlatform unlockedWorld, THEN conjunct2, THEN conjunct2,
      THEN conjunct1, THEN mp, OF small]
  note c = wipe_locks [of demoPlatform demoWorld, THEN conjunct2, THEN conjunct2,
      THEN conjunct2, THEN mp, OF clean]
  have a: "wipe demoPlatform unlockedWorld = (demoWorld, None)"
    using t [THEN conjunct1]
    by (simp add: unlockedWorld_def demoWorld_def initialAuthState_def)
  have u: "isUnlocked (authStore unlockedWorld)"
    by (simp add: unlockedWorld_def)
  from small have small': "list_all
      (\<lambda>f. length (TextEncoder_encode demoPlatform (df_content f)) \<le> 65536)
      (decryptedFiles (authStore unlockedWorld))"
    by (simp add: list_all_iff)
  from small' u a t [THEN conjunct2] c show ?thesis
    by blast
qed

section \<open>Verification of the digest\<close>

text \<open>
  Claim C8. \<open>verifyHmac\<close> returns true exactly when the expected digest decodes, the
  signature is computed, both have the same length and agree at every index; it returns
  false exactly when they differ in length or at some index. The comparison is a length
  check followed by the accumulating loop: when the lengths differ no byte is read, and
  when they agree the loop reads every index from 0 to the last, in order, whatever the
  bytes are and wherever they first differ; so two comparisons on arrays of one length
  read the same indices. The accumulator is 0 exactly when no index differs. Without
  an \<open>hmac\<close> field (or with an empty one) \<open>verifyVaultIntegrity\<close> passes without a call.
\<close>

theorem verifyHmac_compares_all_bytes:
  "(snd (verifyHmac pf k d h) = Inr True) =
     (\<exists>expected signature.
        hexToBuffer h = Inr expected \<and>
        subtle_sign pf ''HMAC'' k (TextEncoder_encode pf d) = Inr signature \<and>
        length signature = length expected \<and>
        (\<forall>i<length signature. signature ! i = expected ! i)) \<and>
   (snd (verifyHmac pf k d h) = Inr False) =
     (\<exists>expected signature.
        hexToBuffer h = Inr expected \<and>
        subtle_sign pf ''HMAC'' k (TextEncoder_encode pf d) = Inr signature \<and>
        \<not> (length signature = length expected \<and>
           (\<forall>i<length signature. signature ! i = expected ! i))) \<and>
   (hexToBuffer h = Inr expected \<and>
    subtle_sign pf ''HMAC'' k (TextEncoder_encode pf d) = Inr signature \<longrightarrow>
      fst (verifyHmac pf k d h) =
        (if length signature \<noteq> length expected then [SignCall]
         else SignCall # map CompareIndex [0..<length signature])) \<and>
   fst (xorAccumulate s e 0 0) = map CompareIndex [0..<length s] \<and>
   (length s' = length s \<longrightarrow>
      fst (xorAccumulate s' e' 0 0) = fst (xorAccumulate s e 0 0)) \<and>
   (length s = length e \<longrightarrow>
      (snd (xorAccumulate s e 0 0) = 0) = (\<forall>i<length s. s ! i = e ! i)) \<and>
   (vm_hmac v = None \<or> vm_hmac v = Some [] \<longrightarrow>
      verifyVaultIntegrity pf v p = ([], Inr True))"
proof (intro conjI)
  have run: "\<And>expected signature.
      hexToBuffer h = Inr expected \<Longrightarrow>
      subtle_sign pf ''HMAC'' k (TextEncoder_encode pf d) = Inr signature \<Longrightarrow>
      snd (verifyHmac pf k d h) = Inr (signature = expected)"
    by (auto simp: verifyHmac_run)
  have thrown: "\<And>b. snd (verifyHmac pf k d h) = Inr b \<Longrightarrow>
      \<exists>expected signature. hexToBuffer h = Inr expected \<and>
        subtle_sign pf ''HMAC'' k (TextEncoder_encode pf d) = Inr signature"
    by (cases "hexToBuffer h"; cases "subtle_sign pf ''HMAC'' k (TextEncoder_encode pf d)")
      (simp_all add: verifyHmac_def io_defs Let_def)
  show "(snd (verifyHmac pf k d h) = Inr True) =
     (\<exists>expected signature.
        hexToBuffer h = Inr expected \<and>
        subtle_sign pf ''HMAC'' k (TextEncoder_encode pf d) = Inr signature \<and>
        length signature = length expected \<and>
        (\<forall>i<length signature. signature ! i = expected ! i))"
  proof
    assume t: "snd (verifyHmac pf k d h) = Inr True"
    from thrown [OF t] obtain expected signature
      where hs: "hexToBuffer h = Inr expected"
        "subtle_sign pf ''HMAC'' k (TextEncoder_encode pf d) = Inr signature"
      by blast
    from run [OF hs] t have "signature = expected"
      by simp
    with hs show "\<exists>expected signature.
        hexToBuffer h = Inr expected \<and>
        subtle_sign pf ''HMAC'' k (TextEncoder_encode pf d) = Inr signature \<and>
        length signature = length expected \<and>
        (\<forall>i<length signature. signature ! i = expected ! i)"
      by blast
  next
    assume "\<exists>expected signature.
        hexToBuffer h = Inr expected \<and>
        subtle_sign pf ''HMAC'' k (TextEncoder_encode pf d) = Inr signature \<and>
        length signature = length expected \<and>
        (\<forall>i<length signature. signature ! i = expected ! i)"
    then obtain expected signature
      where hs: "hexToBuffer h = Inr expected"
        "subtle_sign pf ''HMAC'' k (TextEncoder_encode pf d) = Inr signature"
        and same: "length signature = length expected"
        "\<forall>i<length signature. signature ! i = expected ! i"
      by blast
    from same have eq: "signature = expected"
      by (simp add: list_eq_iff_nth_eq)
    from run [OF hs] eq show "snd (verifyHmac pf k d h) = Inr True"
      by simp
  qed
  show "(snd (verifyHmac pf k d h) = Inr False) =
     (\<exists>expected signature.
        hexToBuffer h = Inr expected \<and>
        subtle_sign pf ''HMAC'' k (TextEncoder_encode pf d) = Inr signature \<and>
        \<not> (length signature = length expected \<and>
           (\<forall>i<length signature. signature ! i = expected ! i)))"
  proof
    assume f: "snd (verifyHmac pf k d h) = Inr False"
    from thrown [OF f] obtain expected signature
      where hs: "hexToBuffer h = Inr expected"
        "subtle_sign pf ''HMAC'' k (TextEncoder_encode pf d) = Inr signature"
      by blast
    from run [OF hs] f have "signature \<noteq> expected"
      by simp
    then have "\<not> (length signature = length expected \<and>
           (\<forall>i<length signature. signature ! i = expected ! i))"
      by (simp add: list_eq_iff_nth_eq)
    with hs show "\<exists>expected signature.
        hexToBuffer h = Inr expected \<and>
        subtle_sign pf ''HMAC'' k (TextEncoder_encode pf d) = Inr signature \<and>
        \<not> (length signature = length expected \<and>
           (\<forall>i<length signature. signature ! i = expected ! i))"
      by blast
  next
    assume "\<exists>expected signature.
        hexToBuffer h = Inr expected \<and>
        subtle_sign pf ''HMAC'' k (TextEncoder_encode pf d) = Inr signature \<and>
        \<not> (length signature = length expected \<and>
           (\<forall>i<length signature. signature ! i = expected ! i))"
    then obtain expected signature
      where hs: "hexToBuffer h = Inr expected"
        "subtle_sign pf ''HMAC'' k (TextEncoder_encode pf d) = Inr signature"
        and differ: "\<not> (length signature = length expected \<and>
           (\<forall>i<length signature. signature ! i = expected ! i))"
      by blast
    from differ have ne: "signature \<noteq> expected"
      by auto
    from run [OF hs] ne show "snd (verifyHmac pf k d h) = Inr False"
      by simp
  qed
  show "hexToBuffer h = Inr expected \<and>
    subtle_sign pf ''HMAC'' k (TextEncoder_encode pf d) = Inr signature \<longrightarrow>
      fst (verifyHmac pf k d h) =
        (if length signature \<noteq> length expected then [SignCall]
         else SignCall # map CompareIndex [0..<length signature])"
    by (simp add: verifyHmac_run)
  show "fst (xorAccumulate s e 0 0) = map CompareIndex [0..<length s]"
    by (rule xorAccumulate_trace)
  show "length s' = length s \<longrightarrow>
      fst (xorAccumulate s' e' 0 0) = fst (xorAccumulate s e 0 0)"
    by (simp add: xorAccumulate_trace)
  show "length s = length e \<longrightarrow>
      (snd (xorAccumulate s e 0 0) = 0) = (\<forall>i<length s. s ! i = e ! i)"
    by (simp add: xorAccumulate_zero)
  show "vm_hmac v = None \<or> vm_hmac v = Some [] \<longrightarrow>
      verifyVaultIntegrity pf v p = ([], Inr True)"
    by (auto simp: verifyVaultIntegrity_def resolved_def)
qed

text \<open>On the toy platform: a digest that matches, and one that differs from the
  signature already in its first byte, where all three indices are read all the same.\<close>

theorem verifyHmac_compares_all_bytes_witness:
  "hexToBuffer ''70777d'' = Inr [0x70, 0x77, 0x7d] \<and>
   hexToBuffer ''71777d'' = Inr [0x71, 0x77, 0x7d] \<and>
   subtle_sign demoPlatform ''HMAC'' [0x70, 0x77, 0x7d] (TextEncoder_encode demoPlatform []) =
     Inr [0x70, 0x77, 0x7d] \<and>
   verifyHmac demoPlatform [0x70, 0x77, 0x7d] [] ''70777d'' =
     ([SignCall, CompareIndex 0, CompareIndex 1, CompareIndex 2], Inr True) \<and>
   verifyHmac demoPlatform [0x70, 0x77, 0x7d] [] ''71777d'' =
     ([SignCall, CompareIndex 0, CompareIndex 1, CompareIndex 2], Inr False) \<and>
   snd (xorAccumulate [0x70, 0x77, 0x7d] [0x71, 0x77, 0x7d] 0 0) \<noteq> 0 \<and>
   vm_hmac demoVault = None \<and>
   verifyVaultIntegrity demoPlatform demoVault ''pw'' = ([], Inr True)"
proof -
  have hx: "hexToBuffer ''70777d'' = Inr [0x70, 0x77, 0x7d]"
    and hy: "hexToBuffer ''71777d'' = Inr [0x71, 0x77, 0x7d]"
    by (simp_all add: hex_defs upt_rec)
  have sg: "subtle_sign demoPlatform ''HMAC'' [0x70, 0x77, 0x7d]
      (TextEncoder_encode demoPlatform []) = Inr [0x70, 0x77, 0x7d]"
    by (simp add: demoPlatform_def)
  have nh: "vm_hmac demoVault = None"
    by (simp add: demoVault_def)
  have up: "[0..<3] = [0, 1, 2]"
    by (simp add: upt_rec)
  note t = verifyHmac_compares_all_bytes
  note tx = t [where pf = demoPlatform and k = "[0x70, 0x77, 0x7d]" and d = "[]"
      and h = "''70777d''" and expected = "[0x70, 0x77, 0x7d]"
      and signature = "[0x70, 0x77, 0x7d]"]
  note ty = t [where pf = demoPlatform and k = "[0x70, 0x77, 0x7d]" and d = "[]"
      and h = "''71777d''" and expected = "[0x71, 0x77, 0x7d]"
      and signature = "[0x70, 0x77, 0x7d]"]
  have a1: "snd (verifyHmac demoPlatform [0x70, 0x77, 0x7d] [] ''70777d'') = Inr True"
    unfolding tx [THEN conjunct1]
    using hx sg by simp
  have a2: "fst (verifyHmac demoPlatform [0x70, 0x77, 0x7d] [] ''70777d'') =
      [SignCall, CompareIndex 0, CompareIndex 1, CompareIndex 2]"
    using tx [THEN conjunct2, THEN conjunct2, THEN conjunct1, THEN mp, OF conjI, OF hx sg]
    by (simp add: up)
  have b1: "snd (verifyHmac demoPlatform [0x70, 0x77, 0x7d] [] ''71777d'') = Inr False"
    unfolding ty [THEN conjunct2, THEN conjunct1]
    using hy sg by (simp add: nth_Cons' exI [of _ 0])
  have b2: "fst (verifyHmac demoPlatform [0x70, 0x77, 0x7d] [] ''71777d'') =
      [SignCall, CompareIndex 0, CompareIndex 1, CompareIndex 2]"
    using ty [THEN conjunct2, THEN conjunct2, THEN conjunct1, THEN mp, OF conjI, OF hy sg]
    by (simp add: up)
  have len: "length [0x70, 0x77, 0x7d :: byte] = length [0x71, 0x77, 0x7d :: byte]"
    by simp
  have c: "snd (xorAccumulate [0x70, 0x77, 0x7d] [0x71, 0x77, 0x7d] 0 0) \<noteq> 0"
    unfolding t [where s = "[0x70, 0x77, 0x7d]" and e = "[0x71, 0x77, 0x7d]",
        THEN conjunct2, THEN conjunct2, THEN conjunct2, THEN conjunct2, THEN conjunct2,
        THEN conjunct1, THEN mp, OF len]
    by (simp add: nth_Cons' exI [of _ 0])
  have d: "verifyVaultIntegrity demoPlatform demoVault ''pw'' = ([], Inr True)"
    using t [where v = demoVault and pf = demoPlatform and p = "''pw''", THEN conjunct2,
        THEN conjunct2, THEN conjunct2, THEN conjunct2, THEN conjunct2, THEN conjunct2] nh
    by blast
  have a: "verifyHmac demoPlatform [0x70, 0x77, 0x7d] [] ''70777d'' =
     ([SignCall, CompareIndex 0, CompareIndex 1, CompareIndex 2], Inr True)"
    using a1 a2 by (simp add: prod_eq_iff)
  have b: "verifyHmac demoPlatform [0x70, 0x77, 0x7d] [] ''71777d'' =
     ([SignCall, CompareIndex 0, CompareIndex 1, CompareIndex 2], Inr False)"
    using b1 b2 by (simp add: prod_eq_iff)
  from hx hy sg a b c nh d show ?thesis by blast
qed

section \<open>Derivation of the two keys\<close>

text \<open>
  Claim C9. The salt of the integrity key is the base salt with every byte XOR-ed with
  \<open>0x5C\<close>. Both derivations import the same passphrase and call PBKDF2 with SHA-256,
  600000 iterations and a key length of 256 bits: \<open>deriveKey\<close> on the base salt for an
  AES-GCM key, \<open>deriveHmacKey\<close> on the XOR-ed salt for an HMAC key.
\<close>

theorem derive_both_keys:
  "hmacSaltOf salt = map (\<lambda>b. b XOR 0x5c) salt \<and>
   (subtle_importKey pf ''raw'' (TextEncoder_encode pf p) ''PBKDF2'' False [''deriveKey''] =
      Inr passwordKey \<and>
    hexToBuffer saltHex = Inr salt \<longrightarrow>
      deriveKey pf p saltHex =
        ([ImportKeyCall,
          DeriveKeyCall
            \<lparr>kdf_name = ''PBKDF2'', kdf_salt = salt, kdf_iterations = 600000,
             kdf_hash = ''SHA-256''\<rparr> (AesDerivedKeyParams ''AES-GCM'' 256)],
         subtle_deriveKey pf
           \<lparr>kdf_name = ''PBKDF2'', kdf_salt = salt, kdf_iterations = 600000,
            kdf_hash = ''SHA-256''\<rparr> passwordKey (AesDerivedKeyParams ''AES-GCM'' 256) False
           [''decrypt'', ''encrypt'']) \<and>
      deriveHmacKey pf p saltHex =
        ([ImportKeyCall,
          DeriveKeyCall
            \<lparr>kdf_name = ''PBKDF2'', kdf_salt = map (\<lambda>b. b XOR 0x5c) salt,
             kdf_iterations = 600000, kdf_hash = ''SHA-256''\<rparr>
            (HmacImportParams ''HMAC'' ''SHA-256'' 256)],
         subtle_deriveKey pf
           \<lparr>kdf_name = ''PBKDF2'', kdf_salt = map (\<lambda>b. b XOR 0x5c) salt,
            kdf_iterations = 600000, kdf_hash = ''SHA-256''\<rparr> passwordKey
           (HmacImportParams ''HMAC'' ''SHA-256'' 256) False [''sign'', ''verify'']))"
  by (simp add: hmacSaltOf_map deriveKey_def deriveHmacKey_def importPasswordKey_def io_defs
      cfg_defs Let_def)

theorem derive_both_keys_witness:
  "subtle_importKey demoPlatform ''raw'' (TextEncoder_encode demoPlatform ''pw'') ''PBKDF2'' False
     [''deriveKey''] = Inr [0x70, 0x77] \<and>
   hexToBuffer ''21'' = Inr [0x21] \<and>
   hmacSaltOf [0x21] = [0x7d] \<and>
   snd (deriveKey demoPlatform ''pw'' ''21'') = Inr [0x70, 0x77, 0x21] \<and>
   snd (deriveHmacKey demoPlatform ''pw'' ''21'') = Inr [0x70, 0x77, 0x7d]"
proof -
  have ik: "subtle_importKey demoPlatform ''raw'' (TextEncoder_encode demoPlatform ''pw'')
      ''PBKDF2'' False [''deriveKey''] = Inr [0x70, 0x77]"
    by (simp add: demoPlatform_def)
  note t = derive_both_keys [where pf = demoPlatform and p = "''pw''" and saltHex = "''21''"
      and salt = "[0x21]" and passwordKey = "[0x70, 0x77]"]
  have s: "hmacSaltOf [0x21] = [0x7d]"
    using t [THEN conjunct1] by simp
  note u = t [THEN conjunct2, THEN mp, OF conjI, OF ik demo_hex_salt]
  have a: "snd (deriveKey demoPlatform ''pw'' ''21'') = Inr [0x70, 0x77, 0x21]"
    unfolding u [THEN conjunct1] by (simp add: demoPlatform_def)
  have b: "snd (deriveHmacKey demoPlatform ''pw'' ''21'') = Inr [0x70, 0x77, 0x7d]"
    unfolding u [THEN conjunct2] by (simp add: demoPlatform_def)
  from ik demo_hex_salt s a b show ?thesis by blast
qed

section \<open>Wiping a buffer\<close>

text \<open>
  Claim C10, at the input where the code fails it. On a buffer of 65537 bytes
  \<open>crypto.getRandomValues\<close> throws: \<open>secureWipeBuffer\<close> does not return, and the buffer
  keeps its bytes. An empty buffer is left as it is, and a buffer of 65536 bytes is
  zeroed. A session that holds a document of 65537 characters is therefore not wiped:
  \<open>wipe\<close> ends with the exception and the session as it was, unlocked.
\<close>

theorem secureWipeBuffer_large_buffer:
  "secureWipeBuffer pf (replicate 65537 0xff) =
     (replicate 65537 0xff, Some (DOMException ''QuotaExceededError'')) \<and>
   secureWipeBuffer pf [] = ([], None) \<and>
   secureWipeBuffer pf (replicate 65536 0xff) = (replicate 65536 0, None) \<and>
   isUnlocked (authStore bigDocWorld) \<and>
   wipe demoPlatform bigDocWorld = (bigDocWorld, Some (DOMException ''QuotaExceededError''))"
proof -
  have enc: "TextEncoder_encode demoPlatform (replicate 65537 CHR ''a'') = replicate 65537 0x61"
    by (simp add: demoPlatform_def)
  have loop: "wipeLoop demoPlatform (decryptedFiles (authStore bigDocWorld)) =
      (decryptedFiles (authStore bigDocWorld), Some (DOMException ''QuotaExceededError''))"
    by (simp add: bigDocWorld_def enc secureWipeBuffer_quota)
  have w: "wipe demoPlatform bigDocWorld =
      (bigDocWorld, Some (DOMException ''QuotaExceededError''))"
    using loop by (simp add: wipe_def Let_def) (simp add: bigDocWorld_def)
  show ?thesis
    using w by (simp add: secureWipeBuffer_quota secureWipeBuffer_zeroes)
      (simp add: bigDocWorld_def secureWipeBuffer_def)
qed

end
